theory Spec2Isabelle
  imports Main "HOL-Library.Word"
begin

section \<open>Message feed client: data model\<close>

text \<open>
  The repository holds two listings of the message feed client. The first one
  (lines 1-178 of the source) knows message accounts only; the second one
  (lines 179-471) adds user accounts and bans. Functions of the second listing keep
  their source names; functions of the first listing carry the suffix \<open>_v1\<close>.

  A \<open>PublicKey\<close> of the ledger library wraps an unsigned big number built from at most
  32 big-endian bytes, and \<open>equals\<close> compares the numbers; it is a \<open>nat\<close> here.
  A \<open>Buffer\<close> is a list of bytes. A JavaScript string is the list of its UTF-16 code
  units. An \<open>Account\<close> (a key pair) is represented by its public key.
\<close>

type_synonym byte = "8 word"
type_synonym buffer = "byte list"
type_synonym js_string = "16 word list"
type_synonym PublicKey = nat

text \<open>The exceptions the client can raise: reading a property of \<open>null\<close> or
  \<open>undefined\<close> is a \<open>TypeError\<close>, reading a byte beyond a buffer is a \<open>RangeError\<close>.\<close>

datatype js_error = TypeError | RangeError

text \<open>\<open>new PublicKey(buffer)\<close>: the big-endian value of the bytes.\<close>

definition PublicKey_of :: "buffer \<Rightarrow> PublicKey" where
  "PublicKey_of b = foldl (\<lambda>acc x. acc * 256 + unat x) 0 b"

text \<open>\<open>new PublicKey(0)\<close>, the pointer of a message without successor.\<close>

definition emptyMessage :: PublicKey where
  "emptyMessage = 0"

subsection \<open>Strings and their UTF-8 bytes\<close>

text \<open>The JavaScript string of a literal of one-byte characters.\<close>

definition js :: "string \<Rightarrow> js_string" where
  "js s = map (\<lambda>c. of_nat (of_char c)) s"

text \<open>The UTF-8 bytes of a code point.\<close>

definition utf8_of_code_point :: "nat \<Rightarrow> buffer" where
  "utf8_of_code_point c =
     (if c < 0x80 then [of_nat c]
      else if c < 0x800 then [of_nat (0xC0 + c div 64), of_nat (0x80 + c mod 64)]
      else if c < 0x10000 then
        [of_nat (0xE0 + c div 4096), of_nat (0x80 + c div 64 mod 64), of_nat (0x80 + c mod 64)]
      else
        [of_nat (0xF0 + c div 262144), of_nat (0x80 + c div 4096 mod 64),
         of_nat (0x80 + c div 64 mod 64), of_nat (0x80 + c mod 64)])"

definition high_surrogate :: "16 word \<Rightarrow> bool" where
  "high_surrogate u = (0xD800 \<le> unat u \<and> unat u \<le> 0xDBFF)"

definition low_surrogate :: "16 word \<Rightarrow> bool" where
  "low_surrogate u = (0xDC00 \<le> unat u \<and> unat u \<le> 0xDFFF)"

text \<open>A code unit on its own: a surrogate without its partner is written as U+FFFD.\<close>

definition utf8_of_unit :: "16 word \<Rightarrow> buffer" where
  "utf8_of_unit u =
     (if high_surrogate u \<or> low_surrogate u then utf8_of_code_point 0xFFFD
      else utf8_of_code_point (unat u))"

text \<open>\<open>Buffer.from(text)\<close>: the UTF-8 encoding of the string; a high surrogate followed
  by a low one is one code point beyond U+FFFF.\<close>

fun Buffer_from :: "js_string \<Rightarrow> buffer" where
  "Buffer_from [] = []"
| "Buffer_from [u] = utf8_of_unit u"
| "Buffer_from (u # v # vs) =
     (if high_surrogate u \<and> low_surrogate v
      then utf8_of_code_point (0x10000 + (unat u - 0xD800) * 1024 + (unat v - 0xDC00)) @
           Buffer_from vs
      else utf8_of_unit u @ Buffer_from (v # vs))"

text \<open>The UTF-8 decoder behind \<open>buffer.toString('utf-8')\<close>, on the values of the bytes:
  \<open>needed\<close> continuation bytes are still expected for the code point \<open>cp\<close>, the next
  of them between \<open>lower\<close> and \<open>upper\<close>. A byte that cannot start a sequence, a
  sequence cut short by a byte that cannot continue it (that byte is then decoded
  afresh) and a sequence cut short by the end of the buffer each give one U+FFFD.\<close>

fun utf8_decode :: "nat \<Rightarrow> nat \<Rightarrow> nat \<Rightarrow> nat \<Rightarrow> nat list \<Rightarrow> nat list" where
  "utf8_decode needed cp lower upper [] = (if needed = 0 then [] else [0xFFFD])"
| "utf8_decode needed cp lower upper (b # bs) =
     (if needed = 0 then
        (if b \<le> 0x7F then b # utf8_decode 0 0 0x80 0xBF bs
         else if 0xC2 \<le> b \<and> b \<le> 0xDF then utf8_decode 1 (b mod 32) 0x80 0xBF bs
         else if 0xE0 \<le> b \<and> b \<le> 0xEF then
           utf8_decode 2 (b mod 16) (if b = 0xE0 then 0xA0 else 0x80)
             (if b = 0xED then 0x9F else 0xBF) bs
         else if 0xF0 \<le> b \<and> b \<le> 0xF4 then
           utf8_decode 3 (b mod 8) (if b = 0xF0 then 0x90 else 0x80)
             (if b = 0xF4 then 0x8F else 0xBF) bs
         else 0xFFFD # utf8_decode 0 0 0x80 0xBF bs)
      else if b < lower \<or> upper < b then 0xFFFD # utf8_decode 0 0 0x80 0xBF (b # bs)
      else if needed = 1 then (cp * 64 + b mod 64) # utf8_decode 0 0 0x80 0xBF bs
      else utf8_decode (needed - 1) (cp * 64 + b mod 64) 0x80 0xBF bs)"

text \<open>The code units of a code point: one, or a surrogate pair beyond U+FFFF.\<close>

definition units_of_code_point :: "nat \<Rightarrow> js_string" where
  "units_of_code_point c =
     (if c < 0x10000 then [of_nat c]
      else [of_nat (0xD800 + (c - 0x10000) div 1024), of_nat (0xDC00 + (c - 0x10000) mod 1024)])"

text \<open>\<open>buffer.toString('utf-8')\<close>.\<close>

definition toString :: "buffer \<Rightarrow> js_string" where
  "toString b = concat (map units_of_code_point (utf8_decode 0 0 0x80 0xBF (map unat b)))"

text \<open>A string is well formed when every surrogate in it is part of a pair, a high
  surrogate followed by a low one; a scalar value is a code point that is no surrogate.\<close>

fun well_formed :: "js_string \<Rightarrow> bool" where
  "well_formed [] = True"
| "well_formed [u] = (\<not> high_surrogate u \<and> \<not> low_surrogate u)"
| "well_formed (u # v # vs) =
     (if high_surrogate u then low_surrogate v \<and> well_formed vs
      else \<not> low_surrogate u \<and> well_formed (v # vs))"

definition scalar :: "nat \<Rightarrow> bool" where
  "scalar c = (c < 0x110000 \<and> \<not> (0xD800 \<le> c \<and> c \<le> 0xDFFF))"

text \<open>What \<open>connection.getAccountInfo\<close> answers: the account's bytes and the program
  owning it, or nothing when the key has no account.\<close>

record AccountInfo =
  data :: buffer
  owner :: PublicKey

type_synonym Connection = "PublicKey \<Rightarrow> AccountInfo option"

subsection \<open>The layouts of the buffer-layout library\<close>

text \<open>\<open>BufferLayout.blob(n).decode(b, offset)\<close> is \<open>b.slice(offset, offset + n)\<close>,
  and \<open>slice\<close> clamps to the buffer.\<close>

definition blob_decode :: "nat \<Rightarrow> buffer \<Rightarrow> nat \<Rightarrow> buffer" where
  "blob_decode n b offset = take n (drop offset b)"

text \<open>\<open>BufferLayout.u8().decode(b, offset)\<close> is \<open>b.readUIntLE(offset, 1)\<close>, which raises
  beyond the buffer.\<close>

definition u8_decode :: "buffer \<Rightarrow> nat \<Rightarrow> js_error + byte" where
  "u8_decode b offset = (if offset < length b then Inr (b ! offset) else Inl RangeError)"

text \<open>\<open>BufferLayout.cstr().decode(b, offset)\<close> scans from \<open>offset\<close> to the first zero byte
  or to the end of the buffer, and returns the bytes before it as a string.\<close>

definition cstr_decode :: "buffer \<Rightarrow> nat \<Rightarrow> js_string" where
  "cstr_decode b offset = toString (takeWhile (\<lambda>x. x \<noteq> 0) (drop offset b))"

text \<open>The bytes \<open>BufferLayout.cstr().encode\<close> writes for a string: its bytes and one
  zero byte.\<close>

definition cstr_span :: "js_string \<Rightarrow> nat" where
  "cstr_span text = length (Buffer_from text) + 1"

section \<open>User accounts\<close>

record UserAccountData =
  banned :: byte
  creator :: buffer

text \<open>\<open>userAccountDataLayout.decode\<close>: a \<open>u8\<close> at offset 0, a 32 byte blob at offset 1.\<close>

definition userAccountDataLayout_decode :: "buffer \<Rightarrow> js_error + UserAccountData" where
  "userAccountDataLayout_decode b =
     (case u8_decode b 0 of
        Inl e \<Rightarrow> Inl e
      | Inr flag \<Rightarrow> Inr \<lparr>banned = flag, creator = blob_decode 32 b 1\<rparr>)"

definition userBanned :: "Connection \<Rightarrow> PublicKey \<Rightarrow> js_error + bool" where
  "userBanned connection user =
     (case connection user of
        None \<Rightarrow> Inl TypeError
      | Some accountInfo \<Rightarrow>
          (case userAccountDataLayout_decode (data accountInfo) of
             Inl e \<Rightarrow> Inl e
           | Inr userAccountData \<Rightarrow> Inr (banned userAccountData \<noteq> 0)))"

section \<open>Message accounts\<close>

record MessageData =
  nextMessage :: PublicKey
  "from" :: PublicKey
  programId :: PublicKey
  "text" :: js_string

text \<open>\<open>readMessage\<close> of the second listing: three 32 byte pointers (\<open>nextMessage\<close>,
  \<open>from\<close>, \<open>creator\<close>) and the text from offset 96. The account information of a key
  without account is \<open>null\<close>, and reading its \<open>data\<close> raises.\<close>

definition readMessage :: "Connection \<Rightarrow> PublicKey \<Rightarrow> js_error + MessageData" where
  "readMessage connection message =
     (case connection message of
        None \<Rightarrow> Inl TypeError
      | Some accountInfo \<Rightarrow>
          Inr \<lparr>nextMessage = PublicKey_of (blob_decode 32 (data accountInfo) 0),
               from = PublicKey_of (blob_decode 32 (data accountInfo) 32),
               programId = owner accountInfo,
               text = cstr_decode (data accountInfo) 96\<rparr>)"

text \<open>\<open>readMessage\<close> of the first listing: two pointers and the text from offset 64.\<close>

definition readMessage_v1 :: "Connection \<Rightarrow> PublicKey \<Rightarrow> js_error + MessageData" where
  "readMessage_v1 connection message =
     (case connection message of
        None \<Rightarrow> Inl TypeError
      | Some accountInfo \<Rightarrow>
          Inr \<lparr>nextMessage = PublicKey_of (blob_decode 32 (data accountInfo) 0),
               from = PublicKey_of (blob_decode 32 (data accountInfo) 32),
               programId = owner accountInfo,
               text = cstr_decode (data accountInfo) 64\<rparr>)"

section \<open>The feed synchronizer\<close>

record Message =
  publicKey :: PublicKey
  "from" :: PublicKey
  name :: js_string
  "text" :: js_string

datatype log_line = LoadingMessage PublicKey | WaitingForProgram | ErrorLine

text \<open>What \<open>refreshMessageFeed\<close> can change: the caller's \<open>messages\<close> array, whatever
  the \<open>onNewMessage\<close> callback acts on (\<open>observer\<close>), the keys asked of the connection
  (\<open>reads\<close>, in order) and the console.\<close>

record 'o FeedState =
  messages :: "Message list"
  observer :: 'o
  reads :: "PublicKey list"
  console :: "log_line list"

text \<open>A call returns or throws; the state it leaves is kept in both cases.\<close>

datatype 's completion = Returned 's | Thrown js_error 's

datatype 'o step = Finished "'o FeedState completion" | Next PublicKey "'o FeedState"

text \<open>The head of the loop body: \<open>if (message === null) { ... }\<close>.\<close>

definition refresh_start :: "Connection \<Rightarrow> PublicKey option \<Rightarrow> 'o FeedState \<Rightarrow> 'o step" where
  "refresh_start connection message s =
     (case message of
        Some m \<Rightarrow> Next m s
      | None \<Rightarrow>
          if length (messages s) = 0 then Finished (Returned s)
          else
            let lastMessage = publicKey (last (messages s));
                s1 = s\<lparr>reads := reads s @ [lastMessage]\<rparr>
            in (case readMessage connection lastMessage of
                  Inl e \<Rightarrow> Finished (Thrown e s1)
                | Inr lastMessageData \<Rightarrow> Next (nextMessage lastMessageData) s1))"

text \<open>In the first listing the array is indexed without a test of its length:
  \<open>messages[-1]\<close> is \<open>undefined\<close>, and reading its \<open>publicKey\<close> raises.\<close>

definition refresh_start_v1 :: "Connection \<Rightarrow> PublicKey option \<Rightarrow> 'o FeedState \<Rightarrow> 'o step" where
  "refresh_start_v1 connection message s =
     (case message of
        Some m \<Rightarrow> Next m s
      | None \<Rightarrow>
          (case messages s of
             [] \<Rightarrow> Finished (Thrown TypeError s)
           | _ # _ \<Rightarrow>
               let lastMessage = publicKey (last (messages s));
                   s1 = s\<lparr>reads := reads s @ [lastMessage]\<rparr>
               in (case readMessage_v1 connection lastMessage of
                     Inl e \<Rightarrow> Finished (Thrown e s1)
                   | Inr lastMessageData \<Rightarrow> Next (nextMessage lastMessageData) s1)))"

text \<open>The rest of the loop body, from \<open>if (message.equals(emptyMessage))\<close>; it is the
  same in both listings but for the layout \<open>read\<close> decodes.\<close>

definition new_entry :: "(PublicKey \<Rightarrow> js_string) \<Rightarrow> PublicKey \<Rightarrow> MessageData \<Rightarrow> Message" where
  "new_entry publicKeyToName message messageData =
     \<lparr>publicKey = message,
      from = MessageData.from messageData,
      name = publicKeyToName (MessageData.from messageData),
      text = MessageData.text messageData\<rparr>"

definition refresh_load ::
  "(PublicKey \<Rightarrow> js_error + MessageData) \<Rightarrow> (PublicKey \<Rightarrow> js_string) \<Rightarrow> ('o \<Rightarrow> 'o) option \<Rightarrow>
   PublicKey \<Rightarrow> 'o FeedState \<Rightarrow> 'o step" where
  "refresh_load read publicKeyToName onNewMessage message s =
     (if message = emptyMessage then Finished (Returned s)
      else
        let s1 = s\<lparr>console := console s @ [LoadingMessage message],
                   reads := reads s @ [message]\<rparr>
        in (case read message of
              Inl e \<Rightarrow> Finished (Thrown e s1)
            | Inr messageData \<Rightarrow>
                Next (nextMessage messageData)
                  (s1\<lparr>messages := messages s1 @ [new_entry publicKeyToName message messageData],
                      observer := (case onNewMessage of
                                     None \<Rightarrow> observer s1
                                   | Some f \<Rightarrow> f (observer s1))\<rparr>)))"

definition refresh_body ::
  "Connection \<Rightarrow> (PublicKey \<Rightarrow> js_string) \<Rightarrow> ('o \<Rightarrow> 'o) option \<Rightarrow>
   PublicKey option \<Rightarrow> 'o FeedState \<Rightarrow> 'o step" where
  "refresh_body connection publicKeyToName onNewMessage message s =
     (case refresh_start connection message s of
        Finished c \<Rightarrow> Finished c
      | Next m s1 \<Rightarrow> refresh_load (readMessage connection) publicKeyToName onNewMessage m s1)"

definition refresh_body_v1 ::
  "Connection \<Rightarrow> (PublicKey \<Rightarrow> js_string) \<Rightarrow> ('o \<Rightarrow> 'o) option \<Rightarrow>
   PublicKey option \<Rightarrow> 'o FeedState \<Rightarrow> 'o step" where
  "refresh_body_v1 connection publicKeyToName onNewMessage message s =
     (case refresh_start_v1 connection message s of
        Finished c \<Rightarrow> Finished c
      | Next m s1 \<Rightarrow> refresh_load (readMessage_v1 connection) publicKeyToName onNewMessage m s1)"

text \<open>The loop \<open>for (;;)\<close> has no bound: a call that never leaves it has the value
  \<open>None\<close>. The \<open>messages\<close> array is the field of the state; \<open>publicKeyToName\<close> is the
  repository's helper of that name.\<close>

partial_function (option) refreshMessageFeed ::
  "Connection \<Rightarrow> (PublicKey \<Rightarrow> js_string) \<Rightarrow> ('o \<Rightarrow> 'o) option \<Rightarrow>
   PublicKey option \<Rightarrow> 'o FeedState \<Rightarrow> 'o FeedState completion option" where
  "refreshMessageFeed connection publicKeyToName onNewMessage message s =
     (case refresh_body connection publicKeyToName onNewMessage message s of
        Finished c \<Rightarrow> Some c
      | Next m s1 \<Rightarrow> refreshMessageFeed connection publicKeyToName onNewMessage (Some m) s1)"

partial_function (option) refreshMessageFeed_v1 ::
  "Connection \<Rightarrow> (PublicKey \<Rightarrow> js_string) \<Rightarrow> ('o \<Rightarrow> 'o) option \<Rightarrow>
   PublicKey option \<Rightarrow> 'o FeedState \<Rightarrow> 'o FeedState completion option" where
  "refreshMessageFeed_v1 connection publicKeyToName onNewMessage message s =
     (case refresh_body_v1 connection publicKeyToName onNewMessage message s of
        Finished c \<Rightarrow> Some c
      | Next m s1 \<Rightarrow> refreshMessageFeed_v1 connection publicKeyToName onNewMessage (Some m) s1)"

subsection \<open>Chains on the ledger\<close>

text \<open>\<open>is_chain connection p ks\<close>: from the pointer \<open>p\<close> the accounts of the ledger link
  the keys \<open>ks\<close>, in this order, and the last of them points to \<open>emptyMessage\<close>.\<close>

fun is_chain :: "Connection \<Rightarrow> PublicKey \<Rightarrow> PublicKey list \<Rightarrow> bool" where
  "is_chain connection p [] = (p = emptyMessage)"
| "is_chain connection p (k # ks) =
     (p = k \<and> k \<noteq> emptyMessage \<and>
      (case readMessage connection k of
         Inl e \<Rightarrow> False
       | Inr d \<Rightarrow> is_chain connection (nextMessage d) ks))"

text \<open>\<open>is_path connection p ks q\<close>: from the pointer \<open>p\<close> the traversal loads the
  message accounts at the keys \<open>ks\<close>, in this order, and is then at the pointer \<open>q\<close>. A
  pointer repeats during a traversal from \<open>p\<close> when there is a path from \<open>p\<close> to some
  \<open>k\<close> and a path of at least one key from \<open>k\<close> back to \<open>k\<close>.\<close>

fun is_path :: "Connection \<Rightarrow> PublicKey \<Rightarrow> PublicKey list \<Rightarrow> PublicKey \<Rightarrow> bool" where
  "is_path connection p [] q = (p = q)"
| "is_path connection p (k # ks) q =
     (p = k \<and> k \<noteq> emptyMessage \<and>
      (case readMessage connection k of
         Inl e \<Rightarrow> False
       | Inr d \<Rightarrow> is_path connection (nextMessage d) ks q))"

text \<open>The entry the synchronizer appends for the message account at \<open>k\<close>. A key of a
  chain always has an account; for any other key the entry has no content.\<close>

definition feed_entry :: "Connection \<Rightarrow> (PublicKey \<Rightarrow> js_string) \<Rightarrow> PublicKey \<Rightarrow> Message" where
  "feed_entry connection publicKeyToName k =
     (case readMessage connection k of
        Inl e \<Rightarrow> \<lparr>publicKey = k, from = 0, name = [], text = []\<rparr>
      | Inr d \<Rightarrow> new_entry publicKeyToName k d)"

text \<open>The effect of \<open>n\<close> calls of the optional callback.\<close>

definition notify :: "('o \<Rightarrow> 'o) option \<Rightarrow> nat \<Rightarrow> 'o \<Rightarrow> 'o" where
  "notify onNewMessage n x = (case onNewMessage of None \<Rightarrow> x | Some f \<Rightarrow> (f ^^ n) x)"

text \<open>A view is at the tail when it is empty or the account of its last entry points to
  \<open>emptyMessage\<close>: nothing has been posted after what the view holds.\<close>

definition at_tail :: "Connection \<Rightarrow> 'o FeedState \<Rightarrow> bool" where
  "at_tail connection s =
     (messages s = [] \<or>
      (case readMessage connection (publicKey (last (messages s))) of
         Inl e \<Rightarrow> False
       | Inr d \<Rightarrow> nextMessage d = emptyMessage))"

section \<open>The transaction composer\<close>

text \<open>One entry of an instruction's \<open>keys\<close>.\<close>

record AccountMeta =
  pubkey :: PublicKey
  isSigner :: bool

text \<open>An instruction is either what \<open>SystemProgram.createAccount(from, newAccount,
  lamports, space, programId)\<close> builds, or an instruction for the feed program with its
  \<open>keys\<close>, \<open>programId\<close> and \<open>data\<close> (absent when the source gives none).\<close>

datatype Instruction =
    SystemProgram_createAccount PublicKey PublicKey nat nat PublicKey
  | TransactionInstruction "AccountMeta list" PublicKey "buffer option"

text \<open>What is handed to \<open>sendAndConfirmTransaction\<close>: the transaction and the signing
  accounts.\<close>

record Submission =
  transaction :: "Instruction list"
  signers :: "PublicKey list"

text \<open>The \<open>keys\<close> of the posting instruction in the second listing.\<close>

definition post_keys ::
  "PublicKey \<Rightarrow> PublicKey \<Rightarrow> PublicKey option \<Rightarrow> PublicKey option \<Rightarrow> AccountMeta list" where
  "post_keys userAccount messageAccount previousMessagePublicKey userToBan =
     [\<lparr>pubkey = userAccount, isSigner = True\<rparr>,
      \<lparr>pubkey = messageAccount, isSigner = True\<rparr>] @
     (case previousMessagePublicKey of
        None \<Rightarrow> []
      | Some previous \<Rightarrow>
          \<lparr>pubkey = previous, isSigner = False\<rparr> #
          (case userToBan of
             None \<Rightarrow> []
           | Some target \<Rightarrow> [\<lparr>pubkey = target, isSigner = False\<rparr>]))"

text \<open>The transaction \<open>postMessageWithProgramId\<close> of the second listing builds, given
  the funded \<open>payerAccount\<close> and the account \<open>new Account()\<close> would create for a user
  (\<open>newAccount\<close>, used only when \<open>userAccount\<close> is \<open>null\<close>).\<close>

definition postMessageWithProgramId_transaction ::
  "PublicKey \<Rightarrow> PublicKey \<Rightarrow> PublicKey \<Rightarrow> PublicKey option \<Rightarrow> PublicKey \<Rightarrow> js_string \<Rightarrow>
   PublicKey option \<Rightarrow> PublicKey option \<Rightarrow> Submission" where
  "postMessageWithProgramId_transaction payerAccount newAccount program_id userAccount
       messageAccount message_text previousMessagePublicKey userToBan =
     (let textBuffer = Buffer_from message_text;
          allocate = [SystemProgram_createAccount payerAccount messageAccount 1
                        (32 + 32 + 32 + length textBuffer) program_id];
          user = (case userAccount of None \<Rightarrow> newAccount | Some u \<Rightarrow> u);
          register = (case userAccount of
                        Some u \<Rightarrow> []
                      | None \<Rightarrow>
                          [SystemProgram_createAccount payerAccount newAccount 1 (1 + 32) program_id,
                           TransactionInstruction
                             [\<lparr>pubkey = newAccount, isSigner = True\<rparr>,
                              \<lparr>pubkey = messageAccount, isSigner = True\<rparr>]
                             program_id None]);
          post = [TransactionInstruction
                    (post_keys user messageAccount previousMessagePublicKey userToBan)
                    program_id (Some textBuffer)]
      in \<lparr>transaction = allocate @ register @ post,
          signers = [payerAccount, user, messageAccount]\<rparr>)"

text \<open>The whole of \<open>postMessageWithProgramId\<close>: \<open>newSystemAccountWithAirdrop\<close> (the
  repository's funding helper) is asked for \<open>100 + fee\<close> lamports, and the transaction
  goes to \<open>sendAndConfirmTransaction\<close>; a failure of either is the failure of the call.\<close>

definition postMessageWithProgramId ::
  "(nat \<Rightarrow> 'e + PublicKey) \<Rightarrow> PublicKey \<Rightarrow> (Submission \<Rightarrow> 'e + 'sig) \<Rightarrow>
   PublicKey \<Rightarrow> PublicKey option \<Rightarrow> PublicKey \<Rightarrow> js_string \<Rightarrow>
   PublicKey option \<Rightarrow> PublicKey option \<Rightarrow> 'e + 'sig" where
  "postMessageWithProgramId newSystemAccountWithAirdrop newAccount sendAndConfirmTransaction
       program_id userAccount messageAccount message_text previousMessagePublicKey userToBan =
     (let fee = 100 in
      case newSystemAccountWithAirdrop (100 + fee) of
        Inl e \<Rightarrow> Inl e
      | Inr payerAccount \<Rightarrow>
          sendAndConfirmTransaction
            (postMessageWithProgramId_transaction payerAccount newAccount program_id userAccount
               messageAccount message_text previousMessagePublicKey userToBan))"

text \<open>The transaction of the first listing: no user accounts, and the payer signs the
  post.\<close>

definition postMessageWithProgramId_transaction_v1 ::
  "PublicKey \<Rightarrow> PublicKey \<Rightarrow> PublicKey \<Rightarrow> js_string \<Rightarrow> PublicKey option \<Rightarrow> Submission" where
  "postMessageWithProgramId_transaction_v1 payerAccount program_id messageAccount message_text
       previousMessagePublicKey =
     (let textBuffer = Buffer_from message_text;
          keys = [\<lparr>pubkey = payerAccount, isSigner = True\<rparr>,
                  \<lparr>pubkey = messageAccount, isSigner = True\<rparr>] @
                 (case previousMessagePublicKey of
                    None \<Rightarrow> []
                  | Some previous \<Rightarrow> [\<lparr>pubkey = previous, isSigner = False\<rparr>])
      in \<lparr>transaction =
            [SystemProgram_createAccount payerAccount messageAccount 1
               (32 + 32 + length textBuffer) program_id,
             TransactionInstruction keys program_id (Some textBuffer)],
          signers = [payerAccount, messageAccount]\<rparr>)"

text \<open>The \<open>space\<close> an instruction asks the system program to allocate.\<close>

fun requested_space :: "Instruction \<Rightarrow> nat option" where
  "requested_space (SystemProgram_createAccount payer new lamports space prog) = Some space"
| "requested_space (TransactionInstruction keys prog d) = None"

text \<open>The \<open>keys\<close> of an instruction for the feed program.\<close>

fun instruction_keys :: "Instruction \<Rightarrow> AccountMeta list" where
  "instruction_keys (SystemProgram_createAccount payer new lamports space prog) = []"
| "instruction_keys (TransactionInstruction keys prog d) = keys"

text \<open>The \<open>space\<close> of the first instruction of a transaction, the allocation of the
  message account.\<close>

definition allocated_space :: "Submission \<Rightarrow> nat option" where
  "allocated_space sub = (case transaction sub of [] \<Rightarrow> None | i # _ \<Rightarrow> requested_space i)"

text \<open>The size of a message account as the specification lays it out, with \<open>n\<close> pointer
  fields: the pointers, the bytes of the text and one zero byte after them.\<close>

definition message_layout_span :: "nat \<Rightarrow> js_string \<Rightarrow> nat" where
  "message_layout_span n message_text = n * 32 + cstr_span message_text"

text \<open>The bytes of a message account of the second listing holding the three pointers and
  the text, with nothing after the text.\<close>

definition message_account_bytes :: "buffer \<Rightarrow> buffer \<Rightarrow> buffer \<Rightarrow> js_string \<Rightarrow> buffer" where
  "message_account_bytes next sender maker message_text =
     next @ sender @ maker @ Buffer_from message_text"

text \<open>The same for the first listing, which has two pointers.\<close>

definition message_account_bytes_v1 :: "buffer \<Rightarrow> buffer \<Rightarrow> js_string \<Rightarrow> buffer" where
  "message_account_bytes_v1 next sender message_text = next @ sender @ Buffer_from message_text"

section \<open>The bootstrap poller\<close>

text \<open>The parsed body of the configuration endpoint. The values of its fields are JSON
  values of a type \<open>'j\<close> left open; \<open>loading\<close> is the truth value the test
  \<open>!config.loading\<close> sees.\<close>

record 'j Config =
  loading :: bool
  firstMessage :: 'j
  loginMethod :: 'j
  programId :: 'j
  url :: 'j

text \<open>One request: \<open>fetch\<close> or \<open>response.json()\<close> raises, or the body parses.\<close>

datatype 'j Response = Failed | Parsed "'j Config"

record 'j FeedMetadata =
  firstMessage :: PublicKey
  loginMethod :: 'j
  programId :: PublicKey
  url :: 'j

text \<open>What the poller does that can be observed: the requests it has sent, the sleeps
  it has taken (in milliseconds) and the lines it has logged.\<close>

record PollState =
  fetches :: nat
  sleeps :: "nat list"
  logged :: "log_line list"

definition sleep :: "nat \<Rightarrow> PollState \<Rightarrow> PollState" where
  "sleep ms s = s\<lparr>sleeps := sleeps s @ [ms]\<rparr>"

definition log_line :: "log_line \<Rightarrow> PollState \<Rightarrow> PollState" where
  "log_line l s = s\<lparr>logged := logged s @ [l]\<rparr>"

datatype 'j poll = Resolved "'j FeedMetadata" PollState | Retry PollState

text \<open>One turn of the loop of \<open>getFirstMessage\<close> (second listing). \<open>fetch i\<close> is what
  the \<open>i\<close>-th request to \<open>configUrl\<close> yields; \<open>newPublicKey\<close> is the constructor
  \<open>new PublicKey(value)\<close>, \<open>None\<close> where it raises. Every exception inside \<open>try\<close> is
  caught and logged.\<close>

definition poll_body ::
  "(nat \<Rightarrow> 'j Response) \<Rightarrow> ('j \<Rightarrow> PublicKey option) \<Rightarrow> PollState \<Rightarrow> 'j poll" where
  "poll_body fetch newPublicKey s =
     (let s1 = s\<lparr>fetches := fetches s + 1\<rparr> in
      case fetch (fetches s) of
        Failed \<Rightarrow> Retry (sleep 1000 (log_line ErrorLine s1))
      | Parsed config \<Rightarrow>
          if \<not> loading config then
            (case newPublicKey (Config.firstMessage config) of
               None \<Rightarrow> Retry (sleep 1000 (log_line ErrorLine s1))
             | Some first \<Rightarrow>
                 (case newPublicKey (Config.programId config) of
                    None \<Rightarrow> Retry (sleep 1000 (log_line ErrorLine s1))
                  | Some prog \<Rightarrow>
                      Resolved \<lparr>firstMessage = first,
                                loginMethod = Config.loginMethod config,
                                programId = prog,
                                url = Config.url config\<rparr> s1))
          else Retry (sleep 1000 (log_line WaitingForProgram s1)))"

partial_function (option) getFirstMessage ::
  "(nat \<Rightarrow> 'j Response) \<Rightarrow> ('j \<Rightarrow> PublicKey option) \<Rightarrow> PollState \<Rightarrow>
   ('j FeedMetadata \<times> PollState) option" where
  "getFirstMessage fetch newPublicKey s =
     (case poll_body fetch newPublicKey s of
        Resolved metadata s1 \<Rightarrow> Some (metadata, s1)
      | Retry s1 \<Rightarrow> getFirstMessage fetch newPublicKey s1)"

text \<open>The metadata a response resolves to, if it does: it parsed, it is not loading,
  and both of its keys are accepted by the constructor.\<close>

definition ready :: "('j \<Rightarrow> PublicKey option) \<Rightarrow> 'j Response \<Rightarrow> 'j FeedMetadata option" where
  "ready newPublicKey r =
     (case r of
        Failed \<Rightarrow> None
      | Parsed config \<Rightarrow>
          if loading config then None
          else (case newPublicKey (Config.firstMessage config) of
                  None \<Rightarrow> None
                | Some first \<Rightarrow>
                    (case newPublicKey (Config.programId config) of
                       None \<Rightarrow> None
                     | Some prog \<Rightarrow>
                         Some \<lparr>firstMessage = first,
                               loginMethod = Config.loginMethod config,
                               programId = prog,
                               url = Config.url config\<rparr>)))"

text \<open>The line logged for a response that does not resolve.\<close>

definition line_of :: "'j Response \<Rightarrow> log_line" where
  "line_of r =
     (case r of
        Failed \<Rightarrow> ErrorLine
      | Parsed config \<Rightarrow> if loading config then WaitingForProgram else ErrorLine)"

section \<open>Example ledgers\<close>

text \<open>The 32 bytes of a pointer with a value below 256, and a message account of the
  second listing with the given successor, author and text (creator zero, owner 9).\<close>

definition pointer_bytes :: "nat \<Rightarrow> buffer" where
  "pointer_bytes n = replicate 31 0 @ [of_nat n]"

definition example_account :: "nat \<Rightarrow> nat \<Rightarrow> js_string \<Rightarrow> AccountInfo" where
  "example_account successor author message_text =
     \<lparr>data = message_account_bytes (pointer_bytes successor) (pointer_bytes author)
               (pointer_bytes 0) message_text,
      owner = 9\<rparr>"

text \<open>A feed of three messages: 2 points to 3, 3 to 4, and 4 has no successor.\<close>

definition example_ledger :: Connection where
  "example_ledger k =
     (if k = 2 then Some (example_account 3 7 (js ''a''))
      else if k = 3 then Some (example_account 4 8 (js ''b''))
      else if k = 4 then Some (example_account 0 7 (js ''c''))
      else None)"

text \<open>A ledger whose only message account points to itself.\<close>

definition cyclic_ledger :: Connection where
  "cyclic_ledger k = (if k = 2 then Some (example_account 2 7 (js ''a'')) else None)"

text \<open>A ledger on which 5 points to 2, 2 to 3 and 3 back to 2.\<close>

definition looping_ledger :: Connection where
  "looping_ledger k =
     (if k = 5 then Some (example_account 2 7 (js ''a''))
      else if k = 2 then Some (example_account 3 8 (js ''b''))
      else if k = 3 then Some (example_account 2 7 (js ''c''))
      else None)"

text \<open>A ledger of the first listing with one message account, at key 4.\<close>

definition example_ledger_v1 :: Connection where
  "example_ledger_v1 k =
     (if k = 4
      then Some \<lparr>data = message_account_bytes_v1 (pointer_bytes 0) (pointer_bytes 7) (js ''c''),
                  owner = 9\<rparr>
      else None)"

text \<open>A ledger whose only account, at key 5, holds the single byte 1; and the ledger
  without accounts.\<close>

definition short_ledger :: Connection where
  "short_ledger k = (if k = 5 then Some \<lparr>data = [1], owner = 9\<rparr> else None)"

definition empty_ledger :: Connection where
  "empty_ledger k = None"

text \<open>A ledger whose only account, at key 6, is a user account of full size with the
  flag set.\<close>

definition banned_user_ledger :: Connection where
  "banned_user_ledger k =
     (if k = 6 then Some \<lparr>data = 1 # pointer_bytes 7, owner = 9\<rparr> else None)"

text \<open>A naming of keys that gives every key the same name.\<close>

definition example_name :: "PublicKey \<Rightarrow> js_string" where
  "example_name k = (js ''user'')"

text \<open>A view without entries, nothing read and nothing logged; the observer counts its
  calls.\<close>

definition empty_view :: "nat FeedState" where
  "empty_view = \<lparr>messages = [], observer = 0, reads = [], console = []\<rparr>"

text \<open>The view after the three messages of \<open>example_ledger\<close> have been loaded into
  \<open>empty_view\<close>, and a view that holds the first of them only.\<close>

definition example_entries :: "Message list" where
  "example_entries =
     [\<lparr>publicKey = 2, from = 7, name = (js ''user''), text = (js ''a'')\<rparr>,
      \<lparr>publicKey = 3, from = 8, name = (js ''user''), text = (js ''b'')\<rparr>,
      \<lparr>publicKey = 4, from = 7, name = (js ''user''), text = (js ''c'')\<rparr>]"

definition loaded_view :: "nat FeedState" where
  "loaded_view =
     \<lparr>messages = example_entries, observer = 3, reads = [2, 3, 4],
      console = [LoadingMessage 2, LoadingMessage 3, LoadingMessage 4]\<rparr>"

definition partial_view :: "nat FeedState" where
  "partial_view =
     \<lparr>messages = [\<lparr>publicKey = 2, from = 7, name = (js ''user''), text = (js ''a'')\<rparr>],
      observer = 5, reads = [2], console = [LoadingMessage 2]\<rparr>"

text \<open>A view that holds the message at key 5 of \<open>looping_ledger\<close>.\<close>

definition looping_view :: "nat FeedState" where
  "looping_view =
     \<lparr>messages = [\<lparr>publicKey = 5, from = 7, name = (js ''user''), text = (js ''a'')\<rparr>],
      observer = 1, reads = [5], console = [LoadingMessage 5]\<rparr>"

definition poll_start :: PollState where
  "poll_start = \<lparr>fetches = 0, sleeps = [], logged = []\<rparr>"

text \<open>An endpoint that is loading, fails, is loading again and is ready at its fourth
  answer; keys are given as numbers, and the constructor accepts all but zero.\<close>

definition example_config :: "bool \<Rightarrow> nat Config" where
  "example_config l = \<lparr>loading = l, firstMessage = 1, loginMethod = 0, programId = 9, url = 4\<rparr>"

definition example_fetch :: "nat \<Rightarrow> nat Response" where
  "example_fetch i =
     (if i = 0 then Parsed (example_config True)
      else if i = 1 then Failed
      else if i = 2 then Parsed (example_config True)
      else Parsed (example_config False))"

definition example_newPublicKey :: "nat \<Rightarrow> PublicKey option" where
  "example_newPublicKey v = (if v = 0 then None else Some v)"

section \<open>Facts about the codec\<close>

lemma unat_byte: "x < 256 \<Longrightarrow> unat (of_nat x :: byte) = x"
  by (simp add: unat_of_nat)

lemma decode_code_point_1:
  assumes "c < 0x80"
  shows "utf8_decode 0 0 0x80 0xBF (map unat (utf8_of_code_point c) @ bs) =
         c # utf8_decode 0 0 0x80 0xBF bs"
  using assms by (simp add: utf8_of_code_point_def unat_byte)

lemma mod_lead:
  fixes q :: nat
  shows "q < 32 \<Longrightarrow> (192 + q) mod 32 = q"
    and "q < 16 \<Longrightarrow> (224 + q) mod 16 = q"
    and "q < 8 \<Longrightarrow> (240 + q) mod 8 = q"
    and "q < 64 \<Longrightarrow> (128 + q) mod 64 = q"
proof -
  have "(32 * 6 + q) mod 32 = q mod 32" by (rule mod_mult_self4)
  then show "q < 32 \<Longrightarrow> (192 + q) mod 32 = q" by simp
  have "(16 * 14 + q) mod 16 = q mod 16" by (rule mod_mult_self4)
  then show "q < 16 \<Longrightarrow> (224 + q) mod 16 = q" by simp
  have "(8 * 30 + q) mod 8 = q mod 8" by (rule mod_mult_self4)
  then show "q < 8 \<Longrightarrow> (240 + q) mod 8 = q" by simp
  have "(64 * 2 + q) mod 64 = q mod 64" by (rule mod_mult_self4)
  then show "q < 64 \<Longrightarrow> (128 + q) mod 64 = q" by simp
qed

lemma decode_bytes_2:
  assumes "2 \<le> q" "q < 32" "r < 64"
  shows "utf8_decode 0 0 0x80 0xBF ([192 + q, 128 + r] @ bs) =
         (q * 64 + r) # utf8_decode 0 0 0x80 0xBF bs"
  using assms by (auto simp add: mod_lead)

lemma decode_bytes_3:
  assumes "q < 16" "r1 < 64" "r0 < 64" "q = 0 \<longrightarrow> 32 \<le> r1" "q = 13 \<longrightarrow> r1 < 32"
  shows "utf8_decode 0 0 0x80 0xBF ([224 + q, 128 + r1, 128 + r0] @ bs) =
         ((q * 64 + r1) * 64 + r0) # utf8_decode 0 0 0x80 0xBF bs"
  using assms by (auto simp add: mod_lead)

lemma decode_bytes_4:
  assumes "q \<le> 4" "r2 < 64" "r1 < 64" "r0 < 64" "q = 0 \<longrightarrow> 16 \<le> r2" "q = 4 \<longrightarrow> r2 < 16"
  shows "utf8_decode 0 0 0x80 0xBF ([240 + q, 128 + r2, 128 + r1, 128 + r0] @ bs) =
         (((q * 64 + r2) * 64 + r1) * 64 + r0) # utf8_decode 0 0 0x80 0xBF bs"
  using assms by (auto simp add: mod_lead)

lemma digits:
  fixes c :: nat
  shows "c = c div 64 * 64 + c mod 64"
    and "c = c div 4096 * 4096 + c div 64 mod 64 * 64 + c mod 64"
    and "c = c div 262144 * 262144 + c div 4096 mod 64 * 4096 + c div 64 mod 64 * 64 + c mod 64"
    and "c mod 64 < 64" and "c div 64 mod 64 < 64" and "c div 4096 mod 64 < 64"
proof -
  have a: "c div 4096 = c div 64 div 64" by (simp add: div_mult2_eq [symmetric])
  have b: "c div 262144 = c div 4096 div 64" by (simp add: div_mult2_eq [symmetric])
  have c0: "c = c div 64 * 64 + c mod 64" by simp
  have c1: "c div 64 = c div 4096 * 64 + c div 64 mod 64" unfolding a by simp
  have c2: "c div 4096 = c div 262144 * 64 + c div 4096 mod 64" unfolding b by simp
  show "c = c div 64 * 64 + c mod 64" by (rule c0)
  show "c = c div 4096 * 4096 + c div 64 mod 64 * 64 + c mod 64"
    using c0 c1 by linarith
  show "c = c div 262144 * 262144 + c div 4096 mod 64 * 4096 + c div 64 mod 64 * 64 + c mod 64"
    using c0 c1 c2 by linarith
  show "c mod 64 < 64" "c div 64 mod 64 < 64" "c div 4096 mod 64 < 64" by simp_all
qed

lemma unat_bytes:
  fixes a b c d :: nat
  assumes "a < 256" "b < 256" "c < 256" "d < 256"
  shows "map unat [of_nat a :: byte, of_nat b] = [a, b]"
    and "map unat [of_nat a :: byte, of_nat b, of_nat c] = [a, b, c]"
    and "map unat [of_nat a :: byte, of_nat b, of_nat c, of_nat d] = [a, b, c, d]"
  using assms by (simp_all add: unat_byte del: of_nat_add of_nat_numeral)

lemma decode_code_point_2:
  assumes "0x80 \<le> c" "c < 0x800"
  shows "utf8_decode 0 0 0x80 0xBF (map unat (utf8_of_code_point c) @ bs) =
         c # utf8_decode 0 0 0x80 0xBF bs"
proof -
  define q where "q = c div 64"
  define r where "r = c mod 64"
  have c: "c = q * 64 + r" and r: "r < 64"
    unfolding q_def r_def by simp_all
  from assms c r have q: "2 \<le> q" "q < 32" by auto
  have "utf8_of_code_point c = [of_nat (192 + q), of_nat (128 + r)]"
    using assms by (simp add: utf8_of_code_point_def q_def r_def del: of_nat_add of_nat_numeral)
  then have "map unat (utf8_of_code_point c) = [192 + q, 128 + r]"
    using unat_bytes(1) [of "192 + q" "128 + r" 0 0] q r by simp
  with decode_bytes_2 [OF q r, of bs] c show ?thesis by simp
qed

lemma decode_code_point_3:
  assumes "0x800 \<le> c" "c < 0x10000" "\<not> (0xD800 \<le> c \<and> c \<le> 0xDFFF)"
  shows "utf8_decode 0 0 0x80 0xBF (map unat (utf8_of_code_point c) @ bs) =
         c # utf8_decode 0 0 0x80 0xBF bs"
proof -
  define q where "q = c div 4096"
  define r1 where "r1 = c div 64 mod 64"
  define r0 where "r0 = c mod 64"
  have c: "c = q * 4096 + r1 * 64 + r0" and r: "r1 < 64" "r0 < 64"
    unfolding q_def r1_def r0_def using digits [of c] by simp_all
  from assms c r have q: "q < 16" "q = 0 \<longrightarrow> 32 \<le> r1" "q = 13 \<longrightarrow> r1 < 32" by auto
  have "utf8_of_code_point c = [of_nat (224 + q), of_nat (128 + r1), of_nat (128 + r0)]"
    using assms
    by (simp add: utf8_of_code_point_def q_def r1_def r0_def del: of_nat_add of_nat_numeral)
  then have "map unat (utf8_of_code_point c) = [224 + q, 128 + r1, 128 + r0]"
    using unat_bytes(2) [of "224 + q" "128 + r1" "128 + r0" 0] q r by simp
  with decode_bytes_3 [OF q(1) r q(2,3), of bs] c show ?thesis by simp
qed

lemma decode_code_point_4:
  assumes "0x10000 \<le> c" "c < 0x110000"
  shows "utf8_decode 0 0 0x80 0xBF (map unat (utf8_of_code_point c) @ bs) =
         c # utf8_decode 0 0 0x80 0xBF bs"
proof -
  define q where "q = c div 262144"
  define r2 where "r2 = c div 4096 mod 64"
  define r1 where "r1 = c div 64 mod 64"
  define r0 where "r0 = c mod 64"
  have c: "c = q * 262144 + r2 * 4096 + r1 * 64 + r0" and r: "r2 < 64" "r1 < 64" "r0 < 64"
    unfolding q_def r2_def r1_def r0_def using digits [of c] by simp_all
  from assms c r have q: "q \<le> 4" "q = 0 \<longrightarrow> 16 \<le> r2" "q = 4 \<longrightarrow> r2 < 16" by auto
  have "utf8_of_code_point c =
      [of_nat (240 + q), of_nat (128 + r2), of_nat (128 + r1), of_nat (128 + r0)]"
    using assms
    by (simp add: utf8_of_code_point_def q_def r2_def r1_def r0_def
        del: of_nat_add of_nat_numeral)
  then have "map unat (utf8_of_code_point c) = [240 + q, 128 + r2, 128 + r1, 128 + r0]"
    using unat_bytes(3) [of "240 + q" "128 + r2" "128 + r1" "128 + r0"] q r by simp
  with decode_bytes_4 [OF q(1) r q(2,3), of bs] c show ?thesis by simp
qed

lemma decode_code_point:
  assumes "scalar c"
  shows "utf8_decode 0 0 0x80 0xBF (map unat (utf8_of_code_point c) @ bs) =
         c # utf8_decode 0 0 0x80 0xBF bs"
proof -
  consider "c < 0x80" | "0x80 \<le> c" "c < 0x800" | "0x800 \<le> c" "c < 0x10000" | "0x10000 \<le> c"
    by linarith
  then show ?thesis
  proof cases
    case 1 then show ?thesis by (rule decode_code_point_1)
  next
    case 2 then show ?thesis by (rule decode_code_point_2)
  next
    case 3 with assms show ?thesis by (intro decode_code_point_3) (auto simp add: scalar_def)
  next
    case 4 with assms show ?thesis by (intro decode_code_point_4) (auto simp add: scalar_def)
  qed
qed

lemma units_of_unit: "units_of_code_point (unat (u :: 16 word)) = [u]"
proof -
  have "unat u < 2 ^ LENGTH(16)" by (rule unsigned_less)
  then show ?thesis by (simp add: units_of_code_point_def)
qed

lemma units_of_pair:
  assumes "high_surrogate u" "low_surrogate v"
  shows "units_of_code_point (0x10000 + (unat u - 0xD800) * 1024 + (unat v - 0xDC00)) = [u, v]"
proof -
  define h where "h = unat u - 0xD800"
  define l where "l = unat v - 0xDC00"
  from assms have u: "unat u = 0xD800 + h" and v: "unat v = 0xDC00 + l" and l: "l < 1024"
    by (auto simp add: high_surrogate_def low_surrogate_def h_def l_def)
  have d: "(h * 1024 + l) div 1024 = h" and m: "(h * 1024 + l) mod 1024 = l"
    using l by simp_all
  have "units_of_code_point (0x10000 + h * 1024 + l) = [of_nat (unat u), of_nat (unat v)]"
    unfolding u v using l
    by (simp add: units_of_code_point_def d del: of_nat_add of_nat_numeral)
  then show ?thesis by (simp add: h_def l_def)
qed

lemma scalar_of_pair:
  assumes "high_surrogate u" "low_surrogate v"
  shows "scalar (0x10000 + (unat u - 0xD800) * 1024 + (unat v - 0xDC00))"
proof -
  define h where "h = unat u - 0xD800"
  define l where "l = unat v - 0xDC00"
  from assms have "h < 1024" "l < 1024"
    unfolding high_surrogate_def low_surrogate_def h_def l_def by linarith+
  then have "scalar (0x10000 + h * 1024 + l)"
    by (simp add: scalar_def)
  then show ?thesis by (simp add: h_def l_def)
qed

lemma scalar_of_unit:
  assumes "\<not> high_surrogate u" "\<not> low_surrogate u"
  shows "scalar (unat (u :: 16 word))"
proof -
  have "unat u < 2 ^ LENGTH(16)" by (rule unsigned_less)
  then have "unat u < 0x110000" by simp
  with assms show ?thesis
    unfolding scalar_def high_surrogate_def low_surrogate_def by linarith
qed

lemma toString_code_point:
  assumes "scalar c"
  shows "toString (utf8_of_code_point c @ b) = units_of_code_point c @ toString b"
  using decode_code_point [OF assms, of "map unat b"] by (simp add: toString_def)

lemma toString_Nil: "toString [] = []"
  by (simp add: toString_def)

lemma toString_Buffer_from:
  "well_formed t \<Longrightarrow> toString (Buffer_from t) = t"
proof (induction t rule: Buffer_from.induct)
  case 1
  show ?case by (simp add: toString_Nil)
next
  case (2 u)
  then have nh: "\<not> high_surrogate u" and nl: "\<not> low_surrogate u" by simp_all
  then have e: "Buffer_from [u] = utf8_of_code_point (unat u) @ []"
    by (simp add: utf8_of_unit_def)
  show ?case
    unfolding e toString_code_point [OF scalar_of_unit [OF nh nl]]
    by (simp only: units_of_unit toString_Nil append_Nil2)
next
  case (3 u v vs)
  show ?case
  proof (cases "high_surrogate u")
    case True
    with "3.prems" have low: "low_surrogate v" and rest: "well_formed vs" by simp_all
    have e: "Buffer_from (u # v # vs) =
        utf8_of_code_point (0x10000 + (unat u - 0xD800) * 1024 + (unat v - 0xDC00)) @
        Buffer_from vs"
      using True low by simp
    have ih: "toString (Buffer_from vs) = vs"
      using "3.IH"(1) True low rest by simp
    show ?thesis
      unfolding e toString_code_point [OF scalar_of_pair [OF True low]]
      by (simp only: units_of_pair [OF True low] ih append_Cons append_Nil)
  next
    case False
    with "3.prems" have nl: "\<not> low_surrogate u" and rest: "well_formed (v # vs)" by simp_all
    have e: "Buffer_from (u # v # vs) = utf8_of_code_point (unat u) @ Buffer_from (v # vs)"
      using False nl by (simp add: utf8_of_unit_def)
    have ih: "toString (Buffer_from (v # vs)) = v # vs"
      using "3.IH"(2) False rest by simp
    show ?thesis
      unfolding e toString_code_point [OF scalar_of_unit [OF False nl]]
      by (simp only: units_of_unit ih append_Cons append_Nil)
  qed
qed

text \<open>A high surrogate on its own does not come back: it is written as the bytes of
  U+FFFD.\<close>

lemma lone_surrogate_replaced: "toString (Buffer_from [0xD800]) = [0xFFFD]"
  by (simp add: toString_def utf8_of_unit_def utf8_of_code_point_def high_surrogate_def
      units_of_code_point_def)

lemma cstr_decode_unterminated:
  "0 \<notin> set bs \<Longrightarrow> length pre = n \<Longrightarrow> cstr_decode (pre @ bs) n = toString bs"
proof -
  assume nz: "0 \<notin> set bs" and len: "length pre = n"
  have "takeWhile (\<lambda>x. x \<noteq> 0) bs = bs"
    by (rule takeWhile_eq_all_conv [THEN iffD2]) (use nz in auto)
  then show ?thesis
    unfolding cstr_decode_def by (simp only: len drop_all append_eq_conv_conj
        drop_append length_0_conv drop0 diff_self_eq_0 order_refl append_Nil)
qed

section \<open>Facts about the synchronizer\<close>

lemma notify_0: "notify cb 0 x = x"
  by (cases cb) (simp_all add: notify_def)

lemma notify_Suc: "notify cb n (case cb of None \<Rightarrow> x | Some f \<Rightarrow> f x) = notify cb (Suc n) x"
  by (cases cb) (simp_all add: notify_def funpow_swap1)

lemma refresh_sentinel:
  "refreshMessageFeed connection publicKeyToName onNewMessage (Some emptyMessage) s =
     Some (Returned s)"
  by (subst refreshMessageFeed.simps)
     (simp add: refresh_body_def refresh_start_def refresh_load_def)

lemma refresh_chain:
  "is_chain connection p ks \<Longrightarrow>
   refreshMessageFeed connection publicKeyToName onNewMessage (Some p) s =
     Some (Returned (s\<lparr>messages := messages s @ map (feed_entry connection publicKeyToName) ks,
                       observer := notify onNewMessage (length ks) (observer s),
                       reads := reads s @ ks,
                       console := console s @ map LoadingMessage ks\<rparr>))"
proof (induction ks arbitrary: p s)
  case Nil
  then show ?case
    by (simp add: refresh_sentinel notify_0)
next
  case (Cons k ks)
  from Cons.prems obtain d where pk: "p = k" and ne: "k \<noteq> emptyMessage"
    and rd: "readMessage connection k = Inr d" and rest: "is_chain connection (nextMessage d) ks"
    by (auto split: sum.splits)
  show ?case
    by (subst refreshMessageFeed.simps)
       (simp add: refresh_body_def refresh_start_def refresh_load_def pk ne rd Let_def
        Cons.IH [OF rest] feed_entry_def notify_Suc)
qed

lemma refresh_resume:
  assumes "messages s \<noteq> []"
      and "readMessage connection (publicKey (last (messages s))) = Inr d"
  shows "refreshMessageFeed connection publicKeyToName onNewMessage None s =
         refreshMessageFeed connection publicKeyToName onNewMessage (Some (nextMessage d))
           (s\<lparr>reads := reads s @ [publicKey (last (messages s))]\<rparr>)"
proof -
  have "refresh_body connection publicKeyToName onNewMessage None s =
        refresh_body connection publicKeyToName onNewMessage (Some (nextMessage d))
          (s\<lparr>reads := reads s @ [publicKey (last (messages s))]\<rparr>)"
    using assms by (simp add: refresh_body_def refresh_start_def Let_def)
  then show ?thesis
    by (simp only: refreshMessageFeed.simps [of _ _ _ None]
        refreshMessageFeed.simps [of _ _ _ "Some (nextMessage d)"])
qed

lemma refresh_empty_view:
  "messages s = [] \<Longrightarrow>
   refreshMessageFeed connection publicKeyToName onNewMessage None s = Some (Returned s)"
  by (subst refreshMessageFeed.simps) (simp add: refresh_body_def refresh_start_def)

lemma refreshMessageFeed_v1_empty:
  "messages s = [] \<Longrightarrow>
   refreshMessageFeed_v1 connection publicKeyToName onNewMessage None s =
     Some (Thrown TypeError s)"
  by (subst refreshMessageFeed_v1.simps) (simp add: refresh_body_v1_def refresh_start_v1_def)

lemma is_chain_append:
  "is_chain connection p (known @ rest) \<Longrightarrow> known \<noteq> [] \<Longrightarrow>
   \<exists>d. readMessage connection (last known) = Inr d \<and> is_chain connection (nextMessage d) rest"
proof (induction known arbitrary: p)
  case Nil
  then show ?case by simp
next
  case (Cons k known)
  then show ?case
    by (cases "known = []") (auto split: sum.splits)
qed

lemma refresh_at_tail:
  assumes "at_tail connection s"
  shows "refreshMessageFeed connection publicKeyToName onNewMessage None s =
         Some (Returned (s\<lparr>reads := reads s @
                 (if messages s = [] then [] else [publicKey (last (messages s))])\<rparr>))"
proof (cases "messages s = []")
  case True
  then show ?thesis by (simp add: refresh_empty_view)
next
  case False
  with assms obtain d where rd: "readMessage connection (publicKey (last (messages s))) = Inr d"
    and tail: "nextMessage d = emptyMessage"
    by (auto simp add: at_tail_def split: sum.splits)
  show ?thesis
    by (simp add: refresh_resume [OF False rd] tail refresh_sentinel False)
qed

lemma cycle_step:
  assumes "\<exists>pre k ks. is_path connection m pre k \<and> ks \<noteq> [] \<and> is_path connection k ks k"
  shows "m \<noteq> emptyMessage \<and>
         (\<exists>d. readMessage connection m = Inr d \<and>
              (\<exists>pre k ks. is_path connection (nextMessage d) pre k \<and> ks \<noteq> [] \<and>
                 is_path connection k ks k))"
proof -
  from assms obtain pre k ks where pre: "is_path connection m pre k" and ne: "ks \<noteq> []"
    and cyc: "is_path connection k ks k"
    by blast
  show ?thesis
  proof (cases pre)
    case Nil
    with pre have mk: "m = k" by simp
    from ne obtain x ks' where ks: "ks = x # ks'" by (cases ks) auto
    with cyc obtain d where "k \<noteq> emptyMessage" and "readMessage connection k = Inr d"
      and "is_path connection (nextMessage d) ks' k"
      by (auto split: sum.splits)
    with mk ne cyc show ?thesis by blast
  next
    case (Cons x pre')
    with pre obtain d where "m \<noteq> emptyMessage" and "readMessage connection m = Inr d"
      and "is_path connection (nextMessage d) pre' k"
      by (auto split: sum.splits)
    with ne cyc show ?thesis by blast
  qed
qed

lemma refresh_lasso:
  assumes pre: "is_path connection p pre k"
      and ne: "ks \<noteq> []"
      and cyc: "is_path connection k ks k"
  shows "refreshMessageFeed connection publicKeyToName onNewMessage (Some p) s = None"
proof -
  have never: "\<forall>m. message = Some m \<longrightarrow>
          (\<exists>pre k ks. is_path connection m pre k \<and> ks \<noteq> [] \<and> is_path connection k ks k) \<longrightarrow> False"
    if "refreshMessageFeed connection publicKeyToName onNewMessage message s = Some r"
    for message r
    using that
  proof (rule refreshMessageFeed.raw_induct
      [rotated, where P = "\<lambda>connection publicKeyToName onNewMessage message s r.
         \<forall>m. message = Some m \<longrightarrow>
          (\<exists>pre k ks. is_path connection m pre k \<and> ks \<noteq> [] \<and> is_path connection k ks k) \<longrightarrow> False"])
    fix rf connection publicKeyToName onNewMessage message and s :: "'a FeedState" and r
    assume ih: "\<And>connection publicKeyToName onNewMessage message (s :: 'a FeedState) r.
        rf connection publicKeyToName onNewMessage message s = Some r \<Longrightarrow>
        \<forall>m. message = Some m \<longrightarrow>
          (\<exists>pre k ks. is_path connection m pre k \<and> ks \<noteq> [] \<and> is_path connection k ks k) \<longrightarrow> False"
      and step: "(case refresh_body connection publicKeyToName onNewMessage message s of
                    Finished c \<Rightarrow> Some c
                  | Next m s1 \<Rightarrow> rf connection publicKeyToName onNewMessage (Some m) s1) = Some r"
    show "\<forall>m. message = Some m \<longrightarrow>
          (\<exists>pre k ks. is_path connection m pre k \<and> ks \<noteq> [] \<and> is_path connection k ks k) \<longrightarrow> False"
    proof (intro allI impI)
      fix m
      assume m: "message = Some m"
        and lasso: "\<exists>pre k ks. is_path connection m pre k \<and> ks \<noteq> [] \<and> is_path connection k ks k"
      from cycle_step [OF lasso] obtain d where ne: "m \<noteq> emptyMessage"
        and rd: "readMessage connection m = Inr d"
        and next_lasso: "\<exists>pre k ks. is_path connection (nextMessage d) pre k \<and> ks \<noteq> [] \<and>
                 is_path connection k ks k"
        by blast
      obtain s' where
        "refresh_body connection publicKeyToName onNewMessage (Some m) s = Next (nextMessage d) s'"
        by (simp add: refresh_body_def refresh_start_def refresh_load_def Let_def ne rd)
      with step m have "rf connection publicKeyToName onNewMessage (Some (nextMessage d)) s' = Some r"
        by simp
      from ih [OF this] next_lasso show False by blast
    qed
  qed
  have "refreshMessageFeed connection publicKeyToName onNewMessage (Some p) s \<noteq> Some r" for r
    using never [of "Some p" r] pre ne cyc by blast
  then show ?thesis
    by (cases "refreshMessageFeed connection publicKeyToName onNewMessage (Some p) s") auto
qed

lemma refresh_body_keeps_tail:
  assumes "refresh_body connection publicKeyToName onNewMessage message s = Next m s'"
      and "m = emptyMessage"
  shows "at_tail connection s'"
  using assms
  by (auto simp add: refresh_body_def refresh_start_def refresh_load_def Let_def at_tail_def
      new_entry_def split: step.splits sum.splits if_splits option.splits)

lemma refresh_body_finished:
  assumes "refresh_body connection publicKeyToName onNewMessage message s = Finished (Returned s1)"
      and "message = Some emptyMessage \<longrightarrow> at_tail connection s"
  shows "at_tail connection s1"
  using assms
  by (auto simp add: refresh_body_def refresh_start_def refresh_load_def Let_def at_tail_def
      split: step.splits sum.splits if_splits option.splits)

lemma refresh_returns_at_tail:
  assumes ret: "refreshMessageFeed connection publicKeyToName onNewMessage message s =
                  Some (Returned s1)"
      and start: "message = Some emptyMessage \<longrightarrow> at_tail connection s"
  shows "at_tail connection s1"
proof -
  have "\<forall>s1. r = Returned s1 \<longrightarrow> (message = Some emptyMessage \<longrightarrow> at_tail connection s) \<longrightarrow>
          at_tail connection s1"
    if "refreshMessageFeed connection publicKeyToName onNewMessage message s = Some r" for r
    using that
  proof (rule refreshMessageFeed.raw_induct
      [rotated, where P = "\<lambda>connection publicKeyToName onNewMessage message s r.
         \<forall>s1. r = Returned s1 \<longrightarrow> (message = Some emptyMessage \<longrightarrow> at_tail connection s) \<longrightarrow>
           at_tail connection s1"])
    fix rf connection publicKeyToName onNewMessage message and s :: "'a FeedState" and r
    assume ih: "\<And>connection publicKeyToName onNewMessage message (s :: 'a FeedState) r.
        rf connection publicKeyToName onNewMessage message s = Some r \<Longrightarrow>
        \<forall>s1. r = Returned s1 \<longrightarrow> (message = Some emptyMessage \<longrightarrow> at_tail connection s) \<longrightarrow>
           at_tail connection s1"
      and step: "(case refresh_body connection publicKeyToName onNewMessage message s of
                    Finished c \<Rightarrow> Some c
                  | Next m s1 \<Rightarrow> rf connection publicKeyToName onNewMessage (Some m) s1) = Some r"
    show "\<forall>s1. r = Returned s1 \<longrightarrow> (message = Some emptyMessage \<longrightarrow> at_tail connection s) \<longrightarrow>
           at_tail connection s1"
    proof (cases "refresh_body connection publicKeyToName onNewMessage message s")
      case (Finished c)
      with step have "c = r" by simp
      with Finished show ?thesis
        using refresh_body_finished by blast
    next
      case (Next m s')
      with step have "rf connection publicKeyToName onNewMessage (Some m) s' = Some r" by simp
      from ih [OF this] refresh_body_keeps_tail [OF Next] show ?thesis by blast
    qed
  qed
  with ret start show ?thesis by blast
qed

lemma publicKey_feed_entry: "publicKey (feed_entry connection publicKeyToName k) = k"
  by (simp add: feed_entry_def new_entry_def split: sum.splits)

lemma PublicKey_of_zeros: "PublicKey_of (replicate n 0 @ bs) = PublicKey_of bs"
  by (induction n) (simp_all add: PublicKey_of_def)

lemma PublicKey_of_pointer_bytes: "n < 256 \<Longrightarrow> PublicKey_of (pointer_bytes n) = n"
  unfolding pointer_bytes_def PublicKey_of_zeros by (simp add: PublicKey_of_def unat_byte)

lemma length_pointer_bytes: "length (pointer_bytes n) = 32"
  by (simp add: pointer_bytes_def)

lemma readMessage_example_account:
  assumes "connection k = Some (example_account n a t)"
      and "n < 256" and "a < 256"
      and "0 \<notin> set (Buffer_from t)" and "well_formed t"
  shows "readMessage connection k = Inr \<lparr>nextMessage = n, from = a, programId = 9, text = t\<rparr>"
proof -
  have "cstr_decode ((pointer_bytes n @ pointer_bytes a @ pointer_bytes 0) @ Buffer_from t) 96 =
      toString (Buffer_from t)"
    using assms(4) by (intro cstr_decode_unterminated) (simp_all add: length_pointer_bytes)
  then show ?thesis
    using assms
    by (simp add: readMessage_def example_account_def message_account_bytes_def blob_decode_def
        length_pointer_bytes PublicKey_of_pointer_bytes toString_Buffer_from)
qed

lemma example_texts:
  "Buffer_from (js ''a'') = [97]" "Buffer_from (js ''b'') = [98]" "Buffer_from (js ''c'') = [99]"
  "Buffer_from (js ''hi'') = [104, 105]"
  "well_formed (js ''a'')" "well_formed (js ''b'')" "well_formed (js ''c'')"
  by (simp_all add: js_def utf8_of_unit_def utf8_of_code_point_def high_surrogate_def
      low_surrogate_def)

lemma example_reads:
  "readMessage example_ledger 2 = Inr \<lparr>nextMessage = 3, from = 7, programId = 9, text = js ''a''\<rparr>"
  "readMessage example_ledger 3 = Inr \<lparr>nextMessage = 4, from = 8, programId = 9, text = js ''b''\<rparr>"
  "readMessage example_ledger 4 = Inr \<lparr>nextMessage = 0, from = 7, programId = 9, text = js ''c''\<rparr>"
  by (rule readMessage_example_account; simp add: example_ledger_def example_texts)+

lemma looping_reads:
  "readMessage looping_ledger 5 = Inr \<lparr>nextMessage = 2, from = 7, programId = 9, text = js ''a''\<rparr>"
  "readMessage looping_ledger 2 = Inr \<lparr>nextMessage = 3, from = 8, programId = 9, text = js ''b''\<rparr>"
  "readMessage looping_ledger 3 = Inr \<lparr>nextMessage = 2, from = 7, programId = 9, text = js ''c''\<rparr>"
  "readMessage cyclic_ledger 2 = Inr \<lparr>nextMessage = 2, from = 7, programId = 9, text = js ''a''\<rparr>"
  by (rule readMessage_example_account;
      simp add: looping_ledger_def cyclic_ledger_def example_texts)+

lemma example_chain: "is_chain example_ledger 2 [2, 3, 4]"
  by (simp add: example_reads emptyMessage_def)

lemma example_feed_entries:
  "[feed_entry example_ledger example_name 2, feed_entry example_ledger example_name 3,
    feed_entry example_ledger example_name 4] = example_entries"
  by (simp add: feed_entry_def new_entry_def example_reads example_name_def example_entries_def)

lemma looping_paths:
  "is_path looping_ledger 5 [5] 2" "is_path looping_ledger 2 [2, 3] 2"
  "is_path cyclic_ledger 2 [2] 2"
  by (simp_all add: looping_reads emptyMessage_def)

lemma notify_Suc_3: "notify (Some Suc) 3 x = x + 3"
  by (simp add: notify_def numeral_3_eq_3)

lemma notify_Suc_2: "notify (Some Suc) 2 x = x + 2"
  by (simp add: notify_def numeral_2_eq_2)

text \<open>In the second listing an empty view without a start is left as it is: nothing is
  read, appended, logged or notified.\<close>

lemma refreshMessageFeed_empty_view_noop:
  "refreshMessageFeed connection publicKeyToName onNewMessage None
     \<lparr>messages = [], observer = x, reads = rs, console = out\<rparr> =
   Some (Returned \<lparr>messages = [], observer = x, reads = rs, console = out\<rparr>)"
  by (simp add: refresh_empty_view)

section \<open>Facts about the poller\<close>

lemma poll_body_ready:
  "ready newPublicKey (fetch (fetches s)) = Some m \<Longrightarrow>
   poll_body fetch newPublicKey s = Resolved m (s\<lparr>fetches := fetches s + 1\<rparr>)"
  by (auto simp add: poll_body_def ready_def Let_def split: Response.splits option.splits if_splits)

lemma poll_body_not_ready:
  "ready newPublicKey (fetch (fetches s)) = None \<Longrightarrow>
   poll_body fetch newPublicKey s =
     Retry (s\<lparr>fetches := fetches s + 1, sleeps := sleeps s @ [1000],
              logged := logged s @ [line_of (fetch (fetches s))]\<rparr>)"
  by (auto simp add: poll_body_def ready_def line_of_def sleep_def log_line_def Let_def
      split: Response.splits option.splits if_splits)

lemma poll_converges:
  "(\<forall>i<n. ready newPublicKey (fetch (fetches s + i)) = None) \<Longrightarrow>
   ready newPublicKey (fetch (fetches s + n)) = Some m \<Longrightarrow>
   getFirstMessage fetch newPublicKey s =
     Some (m, s\<lparr>fetches := fetches s + n + 1,
                 sleeps := sleeps s @ replicate n 1000,
                 logged := logged s @ map (\<lambda>i. line_of (fetch (fetches s + i))) [0..<n]\<rparr>)"
proof (induction n arbitrary: s)
  case 0
  then show ?case
    by (subst getFirstMessage.simps) (simp add: poll_body_ready)
next
  case (Suc n)
  let ?s = "s\<lparr>fetches := fetches s + 1, sleeps := sleeps s @ [1000],
              logged := logged s @ [line_of (fetch (fetches s))]\<rparr>"
  from Suc.prems(1) have now: "ready newPublicKey (fetch (fetches s)) = None"
    by (metis add.right_neutral zero_less_Suc)
  have later: "\<forall>i<n. ready newPublicKey (fetch (fetches ?s + i)) = None"
  proof (intro allI impI)
    fix i assume "i < n"
    then have "Suc i < Suc n" by simp
    from Suc.prems(1) [rule_format, OF this] show "ready newPublicKey (fetch (fetches ?s + i)) = None"
      by simp
  qed
  have last: "ready newPublicKey (fetch (fetches ?s + n)) = Some m"
    using Suc.prems(2) by simp
  have shift: "map (\<lambda>i. line_of (fetch (fetches s + i))) [0..<Suc n] =
               line_of (fetch (fetches s)) # map (\<lambda>i. line_of (fetch (Suc (fetches s + i)))) [0..<n]"
    by (simp only: upt_conv_Cons [of 0 "Suc n", OF zero_less_Suc] list.map map_Suc_upt [symmetric]
        map_map o_def add_Suc_right add_0_right)
  show ?case
    apply (subst getFirstMessage.simps)
    apply (simp only: poll_body_not_ready [where fetch = fetch and s = s, OF now] poll.case Suc.IH [OF later last])
    apply (simp add: replicate_append_same [symmetric] shift del: upt_Suc replicate_Suc)
    apply (simp add: replicate_app_Cons_same)
    done
qed

lemma poll_never:
  assumes ret: "getFirstMessage fetch newPublicKey s = Some y"
  shows "\<exists>n. ready newPublicKey (fetch (fetches s + n)) \<noteq> None"
proof -
  show ?thesis
    using ret
  proof (rule getFirstMessage.raw_induct
      [rotated, where P = "\<lambda>fetch newPublicKey s y.
          \<exists>n. ready newPublicKey (fetch (fetches s + n)) \<noteq> None"])
    fix gf fetch newPublicKey s and y :: "'a FeedMetadata \<times> PollState"
    assume ih: "\<And>fetch newPublicKey s (y :: 'a FeedMetadata \<times> PollState).
        gf fetch newPublicKey s = Some y \<Longrightarrow>
        \<exists>n. ready newPublicKey (fetch (fetches s + n)) \<noteq> None"
      and step: "(case poll_body fetch newPublicKey s of
                    Resolved metadata s1 \<Rightarrow> Some (metadata, s1)
                  | Retry s1 \<Rightarrow> gf fetch newPublicKey s1) = Some y"
    show "\<exists>n. ready newPublicKey (fetch (fetches s + n)) \<noteq> None"
    proof (cases "ready newPublicKey (fetch (fetches s))")
      case None
      let ?s = "s\<lparr>fetches := fetches s + 1, sleeps := sleeps s @ [1000],
                  logged := logged s @ [line_of (fetch (fetches s))]\<rparr>"
      from step have "gf fetch newPublicKey ?s = Some y"
        by (simp add: poll_body_not_ready [where fetch = fetch and s = s, OF None])
      from ih [OF this] obtain n where "ready newPublicKey (fetch (fetches s + 1 + n)) \<noteq> None"
        by auto
      then have "ready newPublicKey (fetch (fetches s + (1 + n))) \<noteq> None"
        by (simp add: add.assoc)
      then show ?thesis by blast
    next
      case (Some m)
      then have "ready newPublicKey (fetch (fetches s + 0)) \<noteq> None" by simp
      then show ?thesis by blast
    qed
  qed
qed

section \<open>The transaction composer: instruction shape, ban target, account size\<close>

text \<open>
  Claim C1. Posting a subsequent message for an existing user (\<open>userAccount\<close> given, a
  previous message given) without a ban target builds exactly two instructions: the
  allocation of the message account, then the post. With a ban target it builds two
  instructions again, and the keys of the second are those of the case without ban
  followed by one more key, the ban target, which does not sign. Posting the first
  message of a new user (\<open>userAccount\<close> is \<open>null\<close>) builds three instructions
  (allocate the message account, allocate the user account, initialize the user) and
  then the post, four in all, whatever the previous message and the ban target are.
\<close>

theorem instruction_shape:
  "transaction (postMessageWithProgramId_transaction payer fresh prog (Some user) message t
      (Some previous) None) =
     [SystemProgram_createAccount payer message 1 (32 + 32 + 32 + length (Buffer_from t)) prog,
      TransactionInstruction
        [\<lparr>pubkey = user, isSigner = True\<rparr>, \<lparr>pubkey = message, isSigner = True\<rparr>,
         \<lparr>pubkey = previous, isSigner = False\<rparr>]
        prog (Some (Buffer_from t))] \<and>
   transaction (postMessageWithProgramId_transaction payer fresh prog (Some user) message t
      (Some previous) (Some target)) =
     [SystemProgram_createAccount payer message 1 (32 + 32 + 32 + length (Buffer_from t)) prog,
      TransactionInstruction
        ([\<lparr>pubkey = user, isSigner = True\<rparr>, \<lparr>pubkey = message, isSigner = True\<rparr>,
          \<lparr>pubkey = previous, isSigner = False\<rparr>] @ [\<lparr>pubkey = target, isSigner = False\<rparr>])
        prog (Some (Buffer_from t))] \<and>
   transaction (postMessageWithProgramId_transaction payer fresh prog None message t
      None None) =
     [SystemProgram_createAccount payer message 1 (32 + 32 + 32 + length (Buffer_from t)) prog,
      SystemProgram_createAccount payer fresh 1 (1 + 32) prog,
      TransactionInstruction
        [\<lparr>pubkey = fresh, isSigner = True\<rparr>, \<lparr>pubkey = message, isSigner = True\<rparr>]
        prog None] @
     [TransactionInstruction
        [\<lparr>pubkey = fresh, isSigner = True\<rparr>, \<lparr>pubkey = message, isSigner = True\<rparr>]
        prog (Some (Buffer_from t))] \<and>
   length (transaction (postMessageWithProgramId_transaction payer fresh prog None message t
      before ban)) = 3 + 1"
  by (simp add: postMessageWithProgramId_transaction_def post_keys_def Let_def)

theorem instruction_shape_witness:
  "length (transaction (postMessageWithProgramId_transaction 1 2 9 (Some 3) 4 (js ''hi'')
      (Some 5) None)) = 2 \<and>
   length (transaction (postMessageWithProgramId_transaction 1 2 9 (Some 3) 4 (js ''hi'')
      (Some 5) (Some 6))) = 2 \<and>
   length (transaction (postMessageWithProgramId_transaction 1 2 9 None 4 (js ''hi'')
      None None)) = 4"
  using instruction_shape [of 1 2 9 3 4 "(js ''hi'')" 5 6 None None]
  by simp

text \<open>
  Claim C4. The ban target is a key of the posting instruction exactly when a ban target
  and a previous message are both given, and then it is the last key and does not sign
  (the keys are the user, given or new, the message account, the previous message if
  there is one, and then the ban target if there are both).
  A ban target without a previous message is dropped: the transaction, and with it the
  whole call, is the one composed without a ban target, and no error is raised for it.
\<close>

theorem ban_needs_previous_message:
  "instruction_keys (last (transaction (postMessageWithProgramId_transaction payer fresh prog
      account message t previous ban))) =
     [\<lparr>pubkey = (case account of None \<Rightarrow> fresh | Some user \<Rightarrow> user), isSigner = True\<rparr>,
      \<lparr>pubkey = message, isSigner = True\<rparr>] @
     (case previous of None \<Rightarrow> [] | Some p \<Rightarrow> [\<lparr>pubkey = p, isSigner = False\<rparr>]) @
     (case (previous, ban) of
        (Some p, Some target) \<Rightarrow> [\<lparr>pubkey = target, isSigner = False\<rparr>]
      | _ \<Rightarrow> []) \<and>
   postMessageWithProgramId_transaction payer fresh prog account message t None (Some target) =
   postMessageWithProgramId_transaction payer fresh prog account message t None None \<and>
   postMessageWithProgramId airdrop fresh send prog account message t None (Some target) =
   postMessageWithProgramId airdrop fresh send prog account message t None None"
proof -
  have same: "postMessageWithProgramId_transaction p fresh prog account message t None (Some target) =
      postMessageWithProgramId_transaction p fresh prog account message t None None" for p
    by (simp add: postMessageWithProgramId_transaction_def post_keys_def)
  have keys: "instruction_keys (last (transaction (postMessageWithProgramId_transaction payer
      fresh prog account message t previous ban))) =
     [\<lparr>pubkey = (case account of None \<Rightarrow> fresh | Some user \<Rightarrow> user), isSigner = True\<rparr>,
      \<lparr>pubkey = message, isSigner = True\<rparr>] @
     (case previous of None \<Rightarrow> [] | Some p \<Rightarrow> [\<lparr>pubkey = p, isSigner = False\<rparr>]) @
     (case (previous, ban) of
        (Some p, Some target) \<Rightarrow> [\<lparr>pubkey = target, isSigner = False\<rparr>]
      | _ \<Rightarrow> [])"
    by (simp add: postMessageWithProgramId_transaction_def post_keys_def Let_def
        split: option.splits)
  have whole: "postMessageWithProgramId airdrop fresh send prog account message t None (Some target) =
      postMessageWithProgramId airdrop fresh send prog account message t None None"
    by (simp add: postMessageWithProgramId_def same split: sum.splits)
  from keys same whole show ?thesis
    by (intro conjI)
qed

theorem ban_needs_previous_message_witness:
  "instruction_keys (last (transaction (postMessageWithProgramId_transaction 1 2 9 (Some 3) 4
      (js ''hi'') (Some 5) (Some 6)))) =
     [\<lparr>pubkey = 3, isSigner = True\<rparr>, \<lparr>pubkey = 4, isSigner = True\<rparr>,
      \<lparr>pubkey = 5, isSigner = False\<rparr>, \<lparr>pubkey = 6, isSigner = False\<rparr>] \<and>
   instruction_keys (last (transaction (postMessageWithProgramId_transaction 1 2 9 (Some 3) 4
      (js ''hi'') None (Some 6)))) =
     [\<lparr>pubkey = 3, isSigner = True\<rparr>, \<lparr>pubkey = 4, isSigner = True\<rparr>]"
  using ban_needs_previous_message [of 1 2 9 "Some 3" 4 "(js ''hi'')" "Some 5" "Some 6", THEN conjunct1]
    ban_needs_previous_message [of 1 2 9 "Some 3" 4 "(js ''hi'')" None "Some 6", THEN conjunct1]
  by simp

text \<open>
  Claim C7, as amended. The space asked for the message account is exactly the width of
  the pointer fields of the listing's layout (three of 32 bytes in the second listing, two
  in the first) plus the number of UTF-8 bytes of the text. That is one byte less than
  the layout with a zero byte after the text: the account holds the pointers and the
  bytes of the text and nothing more. \<open>readMessage\<close> of either listing reads such an
  account back (the text free of zero bytes), the text ending where the buffer ends: the
  text read is the UTF-8 decoding of the bytes of the text, which is the text itself when
  it has no surrogate on its own.
\<close>

theorem allocation_size:
  "allocated_space (postMessageWithProgramId_transaction payer fresh prog account message t
      previous ban) = Some (3 * 32 + length (Buffer_from t)) \<and>
   allocated_space (postMessageWithProgramId_transaction_v1 payer prog message t previous)
     = Some (2 * 32 + length (Buffer_from t)) \<and>
   message_layout_span 3 t = (3 * 32 + length (Buffer_from t)) + 1 \<and>
   message_layout_span 2 t = (2 * 32 + length (Buffer_from t)) + 1 \<and>
   (length next = 32 \<and> length sender = 32 \<and> length maker = 32 \<and> 0 \<notin> set (Buffer_from t) \<and>
    connection k = Some accountInfo \<and>
    data accountInfo = message_account_bytes next sender maker t \<longrightarrow>
    Some (length (data accountInfo)) =
      allocated_space (postMessageWithProgramId_transaction payer fresh prog account message t
        previous ban) \<and>
    readMessage connection k =
      Inr \<lparr>nextMessage = PublicKey_of next, from = PublicKey_of sender,
           programId = owner accountInfo, text = toString (Buffer_from t)\<rparr>) \<and>
   (length next = 32 \<and> length sender = 32 \<and> 0 \<notin> set (Buffer_from t) \<and>
    connection k = Some accountInfo \<and>
    data accountInfo = message_account_bytes_v1 next sender t \<longrightarrow>
    Some (length (data accountInfo)) =
      allocated_space (postMessageWithProgramId_transaction_v1 payer prog message t previous) \<and>
    readMessage_v1 connection k =
      Inr \<lparr>nextMessage = PublicKey_of next, from = PublicKey_of sender,
           programId = owner accountInfo, text = toString (Buffer_from t)\<rparr>) \<and>
   (well_formed t \<longrightarrow> toString (Buffer_from t) = t)"
proof -
  have sizes: "allocated_space (postMessageWithProgramId_transaction payer fresh prog account
      message t previous ban) = Some (3 * 32 + length (Buffer_from t))"
    "allocated_space (postMessageWithProgramId_transaction_v1 payer prog message t previous)
     = Some (2 * 32 + length (Buffer_from t))"
    "message_layout_span 3 t = (3 * 32 + length (Buffer_from t)) + 1"
    "message_layout_span 2 t = (2 * 32 + length (Buffer_from t)) + 1"
    by (simp_all add: allocated_space_def postMessageWithProgramId_transaction_def
        postMessageWithProgramId_transaction_v1_def Let_def message_layout_span_def cstr_span_def)
  have second: "Some (length (data accountInfo)) =
      allocated_space (postMessageWithProgramId_transaction payer fresh prog account message t
        previous ban) \<and>
    readMessage connection k =
      Inr \<lparr>nextMessage = PublicKey_of next, from = PublicKey_of sender,
           programId = owner accountInfo, text = toString (Buffer_from t)\<rparr>"
    if "length next = 32" "length sender = 32" "length maker = 32" "0 \<notin> set (Buffer_from t)"
      "connection k = Some accountInfo"
      "data accountInfo = message_account_bytes next sender maker t"
    using that cstr_decode_unterminated [of "Buffer_from t" "next @ sender @ maker" 96]
    by (simp add: sizes readMessage_def message_account_bytes_def blob_decode_def)
  have first: "Some (length (data accountInfo)) =
      allocated_space (postMessageWithProgramId_transaction_v1 payer prog message t previous) \<and>
    readMessage_v1 connection k =
      Inr \<lparr>nextMessage = PublicKey_of next, from = PublicKey_of sender,
           programId = owner accountInfo, text = toString (Buffer_from t)\<rparr>"
    if "length next = 32" "length sender = 32" "0 \<notin> set (Buffer_from t)"
      "connection k = Some accountInfo"
      "data accountInfo = message_account_bytes_v1 next sender t"
    using that cstr_decode_unterminated [of "Buffer_from t" "next @ sender" 64]
    by (simp add: sizes readMessage_v1_def message_account_bytes_v1_def blob_decode_def)
  from sizes second first toString_Buffer_from show ?thesis
    by blast
qed

theorem allocation_size_witness:
  "length (pointer_bytes 0) = 32 \<and> length (pointer_bytes 7) = 32 \<and>
   0 \<notin> set (Buffer_from (js ''c'')) \<and> well_formed (js ''c'') \<and>
   example_ledger 4 = Some (example_account 0 7 (js ''c'')) \<and>
   data (example_account 0 7 (js ''c'')) =
     message_account_bytes (pointer_bytes 0) (pointer_bytes 7) (pointer_bytes 0) (js ''c'') \<and>
   allocated_space (postMessageWithProgramId_transaction 8 2 9 (Some 3) 4 (js ''c'') None None) =
     Some 97 \<and>
   length (data (example_account 0 7 (js ''c''))) = 97 \<and>
   readMessage example_ledger 4 =
     Inr \<lparr>nextMessage = PublicKey_of (pointer_bytes 0), from = PublicKey_of (pointer_bytes 7),
          programId = 9, text = (js ''c'')\<rparr> \<and>
   example_ledger_v1 4 =
     Some \<lparr>data = message_account_bytes_v1 (pointer_bytes 0) (pointer_bytes 7) (js ''c''),
            owner = 9\<rparr> \<and>
   allocated_space (postMessageWithProgramId_transaction_v1 8 9 4 (js ''c'') None) = Some 65 \<and>
   length (message_account_bytes_v1 (pointer_bytes 0) (pointer_bytes 7) (js ''c'')) = 65 \<and>
   readMessage_v1 example_ledger_v1 4 =
     Inr \<lparr>nextMessage = PublicKey_of (pointer_bytes 0), from = PublicKey_of (pointer_bytes 7),
          programId = 9, text = (js ''c'')\<rparr>"
proof -
  have l: "length (pointer_bytes 0) = 32" "length (pointer_bytes 7) = 32"
    by (simp_all add: pointer_bytes_def)
  have z: "0 \<notin> set (Buffer_from (js ''c''))"
    by (simp add: example_texts)
  have w: "well_formed (js ''c'')"
    by (rule example_texts)
  have e: "example_ledger 4 = Some (example_account 0 7 (js ''c''))"
    by (simp add: example_ledger_def)
  have d: "data (example_account 0 7 (js ''c'')) =
     message_account_bytes (pointer_bytes 0) (pointer_bytes 7) (pointer_bytes 0) (js ''c'')"
    by (simp add: example_account_def)
  have o: "owner (example_account 0 7 (js ''c'')) = 9"
    by (simp add: example_account_def)
  have n: "length (Buffer_from (js ''c'')) = 1"
    by (simp add: example_texts)
  have e1: "example_ledger_v1 4 =
     Some \<lparr>data = message_account_bytes_v1 (pointer_bytes 0) (pointer_bytes 7) (js ''c''),
            owner = 9\<rparr>"
    by (simp add: example_ledger_v1_def)
  note second = allocation_size [where payer = 8 and fresh = 2 and prog = 9
      and account = "Some 3" and message = 4 and t = "js ''c''" and previous = None and ban = None
      and ?next = "pointer_bytes 0" and sender = "pointer_bytes 7" and maker = "pointer_bytes 0"
      and connection = example_ledger and k = 4 and accountInfo = "example_account 0 7 (js ''c'')"]
  note first = allocation_size [where payer = 8 and fresh = 2 and prog = 9
      and account = "Some 3" and message = 4 and t = "js ''c''" and previous = None and ban = None
      and ?next = "pointer_bytes 0" and sender = "pointer_bytes 7" and maker = "pointer_bytes 0"
      and connection = example_ledger_v1 and k = 4
      and accountInfo = "\<lparr>data = message_account_bytes_v1 (pointer_bytes 0) (pointer_bytes 7)
            (js ''c''), owner = 9\<rparr>"]
  have rt: "toString (Buffer_from (js ''c'')) = js ''c''"
    using second w by blast
  have s2: "allocated_space (postMessageWithProgramId_transaction 8 2 9 (Some 3) 4 (js ''c'')
      None None) = Some 97"
    using second by (simp add: n)
  have s1: "allocated_space (postMessageWithProgramId_transaction_v1 8 9 4 (js ''c'') None) =
      Some 65"
    using first by (simp add: n)
  have h2: "length (pointer_bytes 0) = 32 \<and> length (pointer_bytes 7) = 32 \<and>
      length (pointer_bytes 0) = 32 \<and> 0 \<notin> set (Buffer_from (js ''c'')) \<and>
      example_ledger 4 = Some (example_account 0 7 (js ''c'')) \<and>
      data (example_account 0 7 (js ''c'')) =
        message_account_bytes (pointer_bytes 0) (pointer_bytes 7) (pointer_bytes 0) (js ''c'')"
    using l z e d by blast
  have h1: "length (pointer_bytes 0) = 32 \<and> length (pointer_bytes 7) = 32 \<and>
      0 \<notin> set (Buffer_from (js ''c'')) \<and>
      example_ledger_v1 4 =
        Some \<lparr>data = message_account_bytes_v1 (pointer_bytes 0) (pointer_bytes 7) (js ''c''),
               owner = 9\<rparr> \<and>
      data \<lparr>data = message_account_bytes_v1 (pointer_bytes 0) (pointer_bytes 7) (js ''c''),
            owner = 9\<rparr> =
        message_account_bytes_v1 (pointer_bytes 0) (pointer_bytes 7) (js ''c'')"
    using l z e1 by simp
  from second [THEN conjunct2, THEN conjunct2, THEN conjunct2, THEN conjunct2, THEN conjunct1,
      rule_format, OF h2]
  have r2: "length (data (example_account 0 7 (js ''c''))) = 97 \<and>
    readMessage example_ledger 4 =
     Inr \<lparr>nextMessage = PublicKey_of (pointer_bytes 0), from = PublicKey_of (pointer_bytes 7),
          programId = 9, text = (js ''c'')\<rparr>"
    by (simp add: s2 rt o)
  from first [THEN conjunct2, THEN conjunct2, THEN conjunct2, THEN conjunct2, THEN conjunct2,
      THEN conjunct1, rule_format, OF h1]
  have r1: "length (message_account_bytes_v1 (pointer_bytes 0) (pointer_bytes 7) (js ''c'')) = 65 \<and>
    readMessage_v1 example_ledger_v1 4 =
     Inr \<lparr>nextMessage = PublicKey_of (pointer_bytes 0), from = PublicKey_of (pointer_bytes 7),
          programId = 9, text = (js ''c'')\<rparr>"
    by (simp add: s1 rt)
  from l z w e d s2 r2 e1 s1 r1 show ?thesis
    by blast
qed

text \<open>The claim as it stands fails: for the text \<open>hi\<close> the second listing asks for 98
  bytes, and the layout with its zero byte takes 99.\<close>

theorem allocation_short_of_terminator:
  "allocated_space (postMessageWithProgramId_transaction 1 2 9 (Some 3) 4 (js ''hi'') None None)
     = Some 98 \<and>
   \<not> message_layout_span 3 (js ''hi'') \<le> 98"
proof -
  have "length (Buffer_from (js ''hi'')) = 2"
    by (simp add: example_texts)
  then show ?thesis
    by (simp add: allocated_space_def postMessageWithProgramId_transaction_def Let_def
        message_layout_span_def cstr_span_def)
qed

section \<open>The ban flag of a user account\<close>

text \<open>
  Claim C9. For a user account of at least 1 + 32 bytes \<open>userBanned\<close> returns true exactly
  when the first byte, the flag, is not zero; and its result is determined by the bytes of
  the account: two reads of accounts with the same bytes give the same result.
\<close>

theorem userBanned_flag:
  assumes "connection user = Some accountInfo"
      and "1 + 32 \<le> length (data accountInfo)"
  shows "userBanned connection user = Inr (data accountInfo ! 0 \<noteq> 0) \<and>
         (\<forall>connection' user' accountInfo'.
            connection' user' = Some accountInfo' \<and> data accountInfo' = data accountInfo \<longrightarrow>
            userBanned connection' user' = userBanned connection user)"
  using assms
  by (auto simp add: userBanned_def userAccountDataLayout_decode_def u8_decode_def)

theorem userBanned_flag_witness:
  "banned_user_ledger 6 = Some \<lparr>data = 1 # pointer_bytes 7, owner = 9\<rparr> \<and>
   1 + 32 \<le> length (data \<lparr>data = 1 # pointer_bytes 7, owner = 9\<rparr>) \<and>
   userBanned banned_user_ledger 6 = Inr True"
proof -
  have a: "banned_user_ledger 6 = Some \<lparr>data = 1 # pointer_bytes 7, owner = 9\<rparr>"
    by (simp add: banned_user_ledger_def)
  have b: "1 + 32 \<le> length (data \<lparr>data = 1 # pointer_bytes 7, owner = 9\<rparr>)"
    by (simp add: pointer_bytes_def)
  show ?thesis
    using a b userBanned_flag [of banned_user_ledger 6 "\<lparr>data = 1 # pointer_bytes 7, owner = 9\<rparr>"]
    by simp
qed

text \<open>
  Claim C10, as amended. \<open>userBanned\<close> fails, with the untyped exception of the failing
  read and not with an error of its own, when the key has no account (reading \<open>data\<close> of
  the missing account information raises) and when the account has no bytes at all (the
  flag is read beyond the buffer); for every account with at least one byte, also one
  shorter than the layout, it returns whether the first byte is not zero.
\<close>

theorem userBanned_outcomes:
  "userBanned connection user =
     (case connection user of
        None \<Rightarrow> Inl TypeError
      | Some accountInfo \<Rightarrow>
          (case data accountInfo of
             [] \<Rightarrow> Inl RangeError
           | flag # rest \<Rightarrow> Inr (flag \<noteq> 0)))"
  by (simp add: userBanned_def userAccountDataLayout_decode_def u8_decode_def
      split: option.splits list.splits)

theorem userBanned_outcomes_witness:
  "userBanned empty_ledger 5 = Inl TypeError \<and> userBanned short_ledger 5 = Inr True"
  using userBanned_outcomes [of empty_ledger 5] userBanned_outcomes [of short_ledger 5]
  by (simp add: empty_ledger_def short_ledger_def)

text \<open>The claim as it stands fails: an account of one byte is shorter than the layout,
  and the call returns a boolean for it.\<close>

theorem userBanned_short_account:
  "short_ledger 5 = Some \<lparr>data = [1], owner = 9\<rparr> \<and> length [1 :: byte] < 1 + 32 \<and>
   userBanned short_ledger 5 = Inr True"
  by (simp add: short_ledger_def userBanned_def userAccountDataLayout_decode_def u8_decode_def)

section \<open>The feed synchronizer: order, termination, resumption\<close>

text \<open>
  Claim C2. For a chain A, B, C on the ledger, C pointing to \<open>emptyMessage\<close>, a call
  of \<open>refreshMessageFeed\<close> that starts at A returns, on any view, with the entries of
  A, B and C appended to the view in this order. The accounts are read one after the
  other, each read awaited before the next (\<open>reads\<close> is A, B, C), so the order does not
  depend on how long a read takes.
\<close>

theorem order_preservation:
  assumes "is_chain connection A [A, B, C]"
  shows "refreshMessageFeed connection publicKeyToName onNewMessage (Some A) s =
           Some (Returned (s\<lparr>messages := messages s @
                               [feed_entry connection publicKeyToName A,
                                feed_entry connection publicKeyToName B,
                                feed_entry connection publicKeyToName C],
                             observer := notify onNewMessage 3 (observer s),
                             reads := reads s @ [A, B, C],
                             console := console s @
                               [LoadingMessage A, LoadingMessage B, LoadingMessage C]\<rparr>)) \<and>
         map publicKey [feed_entry connection publicKeyToName A,
                        feed_entry connection publicKeyToName B,
                        feed_entry connection publicKeyToName C] = [A, B, C]"
  using refresh_chain [OF assms, of publicKeyToName onNewMessage s]
  by (simp add: publicKey_feed_entry numeral_3_eq_3)

theorem order_preservation_witness:
  "is_chain example_ledger 2 [2, 3, 4] \<and>
   refreshMessageFeed example_ledger example_name (Some Suc) (Some 2) empty_view =
     Some (Returned loaded_view)"
proof -
  have v: "empty_view\<lparr>messages := messages empty_view @
               [feed_entry example_ledger example_name 2,
                feed_entry example_ledger example_name 3,
                feed_entry example_ledger example_name 4],
             observer := notify (Some Suc) 3 (observer empty_view),
             reads := reads empty_view @ [2, 3, 4],
             console := console empty_view @
               [LoadingMessage 2, LoadingMessage 3, LoadingMessage 4]\<rparr> = loaded_view"
    by (simp add: example_feed_entries notify_Suc_3 empty_view_def loaded_view_def)
  from order_preservation [OF example_chain, of example_name "Some Suc" empty_view]
  have "refreshMessageFeed example_ledger example_name (Some Suc) (Some 2) empty_view =
     Some (Returned loaded_view)"
    unfolding v by (rule conjunct1)
  with example_chain show ?thesis by (rule conjI)
qed

text \<open>
  Claim C3, as amended. For a chain of N keys that ends with a pointer to \<open>emptyMessage\<close>
  a call returns and has appended exactly the entries the view did not know: all N of
  them when the view is empty and the call starts at the head of the chain, and N minus
  the known ones when the view holds a nonempty prefix of the chain and the call has no
  start. There is no guard against a pointer that repeats: whenever the pointers followed
  by the traversal come back to a key already loaded (from the start given, or from the
  successor of the view's last entry when no start is given), the call neither returns
  nor fails.
\<close>

theorem sentinel_termination:
  "(is_chain connection p (known @ rest) \<and> map publicKey (messages s) = known \<longrightarrow>
      refreshMessageFeed connection publicKeyToName onNewMessage
        (if known = [] then Some p else None) s =
        Some (Returned (s\<lparr>messages := messages s @
                            map (feed_entry connection publicKeyToName) rest,
                          observer := notify onNewMessage (length rest) (observer s),
                          reads := reads s @ (if known = [] then [] else [last known]) @ rest,
                          console := console s @ map LoadingMessage rest\<rparr>)) \<and>
      length rest = length (known @ rest) - length known) \<and>
   (is_path connection q pre k \<and> ks \<noteq> [] \<and> is_path connection k ks k \<longrightarrow>
      refreshMessageFeed connection publicKeyToName onNewMessage (Some q) s = None \<and>
      (messages s \<noteq> [] \<and>
       readMessage connection (publicKey (last (messages s))) = Inr d \<and> nextMessage d = q \<longrightarrow>
       refreshMessageFeed connection publicKeyToName onNewMessage None s = None))"
proof (intro conjI impI)
  assume "is_chain connection p (known @ rest) \<and> map publicKey (messages s) = known"
  then have chain: "is_chain connection p (known @ rest)"
    and view: "map publicKey (messages s) = known"
    by simp_all
  show "refreshMessageFeed connection publicKeyToName onNewMessage
        (if known = [] then Some p else None) s =
        Some (Returned (s\<lparr>messages := messages s @
                            map (feed_entry connection publicKeyToName) rest,
                          observer := notify onNewMessage (length rest) (observer s),
                          reads := reads s @ (if known = [] then [] else [last known]) @ rest,
                          console := console s @ map LoadingMessage rest\<rparr>))"
  proof (cases "known = []")
    case True
    with chain have "is_chain connection p rest" by simp
    from refresh_chain [OF this] True show ?thesis by simp
  next
    case False
    from is_chain_append [OF chain False] obtain d
      where rd: "readMessage connection (last known) = Inr d"
        and rest: "is_chain connection (nextMessage d) rest"
      by blast
    from False view have ne: "messages s \<noteq> []" by auto
    from view ne have lk: "publicKey (last (messages s)) = last known"
      by (simp add: last_map [symmetric])
    from rd lk have rd': "readMessage connection (publicKey (last (messages s))) = Inr d"
      by simp
    show ?thesis
      by (simp add: False refresh_resume [OF ne rd'] refresh_chain [OF rest] lk)
  qed
  show "length rest = length (known @ rest) - length known"
    by simp
next
  assume "is_path connection q pre k \<and> ks \<noteq> [] \<and> is_path connection k ks k"
  then show "refreshMessageFeed connection publicKeyToName onNewMessage (Some q) s = None"
    using refresh_lasso by blast
next
  assume lasso: "is_path connection q pre k \<and> ks \<noteq> [] \<and> is_path connection k ks k"
    and view: "messages s \<noteq> [] \<and>
       readMessage connection (publicKey (last (messages s))) = Inr d \<and> nextMessage d = q"
  from view have ne: "messages s \<noteq> []"
    and rd: "readMessage connection (publicKey (last (messages s))) = Inr d"
    and nx: "nextMessage d = q"
    by simp_all
  from lasso have "refreshMessageFeed connection publicKeyToName onNewMessage (Some q)
      (s\<lparr>reads := reads s @ [publicKey (last (messages s))]\<rparr>) = None"
    using refresh_lasso by blast
  then show "refreshMessageFeed connection publicKeyToName onNewMessage None s = None"
    by (simp add: refresh_resume [OF ne rd] nx)
qed

theorem sentinel_termination_witness:
  "is_chain example_ledger 2 ([] @ [2, 3, 4]) \<and> map publicKey (messages empty_view) = [] \<and>
   refreshMessageFeed example_ledger example_name (Some Suc) (Some 2) empty_view =
     Some (Returned loaded_view) \<and>
   is_chain example_ledger 2 ([2] @ [3, 4]) \<and> map publicKey (messages partial_view) = [2] \<and>
   refreshMessageFeed example_ledger example_name (Some Suc) None partial_view =
     Some (Returned (loaded_view\<lparr>observer := 7, reads := [2, 2, 3, 4]\<rparr>)) \<and>
   is_path looping_ledger 5 [5] 2 \<and> [2, 3] \<noteq> ([] :: nat list) \<and>
   is_path looping_ledger 2 [2, 3] 2 \<and>
   refreshMessageFeed looping_ledger example_name (Some Suc) (Some 5) empty_view = None \<and>
   messages looping_view \<noteq> [] \<and>
   nextMessage \<lparr>nextMessage = 2, from = 7, programId = 9, text = js ''a''\<rparr> = 2 \<and>
   readMessage looping_ledger (publicKey (last (messages looping_view))) =
     Inr \<lparr>nextMessage = 2, from = 7, programId = 9, text = js ''a''\<rparr> \<and>
   refreshMessageFeed looping_ledger example_name (Some Suc) None looping_view = None"
proof -
  have c0: "is_chain example_ledger 2 ([] @ [2, 3, 4])" using example_chain by simp
  have v0: "map publicKey (messages empty_view) = []" by (simp add: empty_view_def)
  have c1: "is_chain example_ledger 2 ([2] @ [3, 4])" using example_chain by simp
  have v1: "map publicKey (messages partial_view) = [2]" by (simp add: partial_view_def)
  have s0: "empty_view\<lparr>messages := messages empty_view @
               map (feed_entry example_ledger example_name) [2, 3, 4],
             observer := notify (Some Suc) (length [2 :: nat, 3, 4]) (observer empty_view),
             reads := reads empty_view @ (if ([] :: nat list) = [] then [] else [last []]) @ [2, 3, 4],
             console := console empty_view @ map LoadingMessage [2, 3, 4]\<rparr> = loaded_view"
    using example_feed_entries notify_Suc_3 [of 0]
    by (simp add: empty_view_def loaded_view_def numeral_3_eq_3 [symmetric])
  have s1: "partial_view\<lparr>messages := messages partial_view @
               map (feed_entry example_ledger example_name) [3, 4],
             observer := notify (Some Suc) (length [3 :: nat, 4]) (observer partial_view),
             reads := reads partial_view @ (if [2 :: nat] = [] then [] else [last [2]]) @ [3, 4],
             console := console partial_view @ map LoadingMessage [3, 4]\<rparr> =
           loaded_view\<lparr>observer := 7, reads := [2, 2, 3, 4]\<rparr>"
    using example_feed_entries notify_Suc_2 [of 5]
    by (simp add: partial_view_def loaded_view_def example_entries_def numeral_2_eq_2 [symmetric])
  have a: "refreshMessageFeed example_ledger example_name (Some Suc) (Some 2) empty_view =
     Some (Returned loaded_view)"
    using sentinel_termination [THEN conjunct1, rule_format, OF conjI, OF c0 v0,
        of example_name "Some Suc"]
    unfolding s0 by simp
  have b: "refreshMessageFeed example_ledger example_name (Some Suc) None partial_view =
     Some (Returned (loaded_view\<lparr>observer := 7, reads := [2, 2, 3, 4]\<rparr>))"
    using sentinel_termination [THEN conjunct1, rule_format, OF conjI, OF c1 v1,
        of example_name "Some Suc"]
    unfolding s1 by simp
  have p0: "is_path looping_ledger 5 [5] 2" by (rule looping_paths)
  have p1: "is_path looping_ledger 2 [2, 3] 2" by (rule looping_paths)
  have n1: "[2, 3] \<noteq> ([] :: nat list)" by simp
  have lasso: "is_path looping_ledger 5 [5] 2 \<and> [2, 3] \<noteq> ([] :: nat list) \<and>
      is_path looping_ledger 2 [2, 3] 2"
    using p0 p1 by simp
  have ring: "is_path looping_ledger 2 [] 2 \<and> [2, 3] \<noteq> ([] :: nat list) \<and>
      is_path looping_ledger 2 [2, 3] 2"
    using p1 by simp
  have e: "refreshMessageFeed looping_ledger example_name (Some Suc) (Some 5) empty_view = None"
    using sentinel_termination [THEN conjunct2, rule_format, OF lasso, THEN conjunct1] .
  have m: "messages looping_view \<noteq> []" by (simp add: looping_view_def)
  have k: "publicKey (last (messages looping_view)) = 5" by (simp add: looping_view_def)
  have r5: "readMessage looping_ledger 5 =
     Inr \<lparr>nextMessage = 2, from = 7, programId = 9, text = js ''a''\<rparr>"
    by (rule looping_reads)
  have r: "readMessage looping_ledger (publicKey (last (messages looping_view))) =
     Inr \<lparr>nextMessage = 2, from = 7, programId = 9, text = js ''a''\<rparr>"
    using r5 by (simp only: k)
  have x: "nextMessage \<lparr>nextMessage = 2, from = 7, programId = 9, text = js ''a''\<rparr> = 2"
    by simp
  have f: "refreshMessageFeed looping_ledger example_name (Some Suc) None looping_view = None"
    using sentinel_termination [THEN conjunct2, rule_format, OF ring, THEN conjunct2,
        rule_format, OF conjI, OF m conjI, OF r x] .
  from c0 v0 a c1 v1 b p0 n1 p1 e m x r f show ?thesis
    by blast
qed

text \<open>The claim as it stands fails: on a ledger whose message points to itself the call
  never returns.\<close>

theorem cycle_never_returns:
  "refreshMessageFeed cyclic_ledger example_name None (Some 2) empty_view = None"
  by (rule refresh_lasso [OF _ _ looping_paths(3), where pre = "[]"]) simp_all

text \<open>
  Claim C5. In the first listing a call without start on an empty view is not the no-op
  the claim states: \<open>messages[messages.length - 1]\<close> is \<open>undefined\<close> there and the
  call raises a \<open>TypeError\<close> (nothing is read, appended or notified). The second
  listing tests the length first and returns, as \<open>refreshMessageFeed_empty_view_noop\<close>
  shows.
\<close>

theorem refresh_v1_empty_view_throws:
  "refreshMessageFeed_v1 connection publicKeyToName onNewMessage None
     \<lparr>messages = [], observer = x, reads = rs, console = out\<rparr> =
   Some (Thrown TypeError \<lparr>messages = [], observer = x, reads = rs, console = out\<rparr>)"
  by (simp add: refreshMessageFeed_v1_empty)

text \<open>
  Claim C6. After a call of \<open>refreshMessageFeed\<close> has returned, a second call on the
  resulting view, without start and on the same ledger, returns and leaves the view as it
  is: no entry is appended, removed or changed, the observer is not called, nothing is
  logged; the only effect is the read of the last entry's account. (A first call that is
  started at \<open>emptyMessage\<close> itself returns at once, so for it the view has to be at the
  tail beforehand.)
\<close>

theorem resumability:
  assumes first: "refreshMessageFeed connection publicKeyToName onNewMessage start s =
                    Some (Returned s1)"
      and start: "start = Some emptyMessage \<longrightarrow> at_tail connection s"
  shows "refreshMessageFeed connection publicKeyToName' onNewMessage' None s1 =
           Some (Returned (s1\<lparr>reads := reads s1 @
                   (if messages s1 = [] then [] else [publicKey (last (messages s1))])\<rparr>))"
  using refresh_at_tail [OF refresh_returns_at_tail [OF first start]] .

theorem resumability_witness:
  "refreshMessageFeed example_ledger example_name (Some Suc) (Some 2) empty_view =
     Some (Returned loaded_view) \<and>
   refreshMessageFeed example_ledger example_name (Some Suc) None loaded_view =
     Some (Returned (loaded_view\<lparr>reads := [2, 3, 4, 4]\<rparr>))"
proof -
  have v: "empty_view\<lparr>messages := messages empty_view @
               map (feed_entry example_ledger example_name) [2, 3, 4],
             observer := notify (Some Suc) (length [2 :: nat, 3, 4]) (observer empty_view),
             reads := reads empty_view @ [2, 3, 4],
             console := console empty_view @ map LoadingMessage [2, 3, 4]\<rparr> = loaded_view"
    using example_feed_entries notify_Suc_3 [of 0]
    by (simp add: empty_view_def loaded_view_def numeral_3_eq_3 [symmetric])
  have a: "refreshMessageFeed example_ledger example_name (Some Suc) (Some 2) empty_view =
     Some (Returned loaded_view)"
    using refresh_chain [OF example_chain, of example_name "Some Suc" empty_view]
    unfolding v .
  have b: "Some 2 = Some emptyMessage \<longrightarrow> at_tail example_ledger empty_view"
    by (simp add: emptyMessage_def)
  from resumability [OF a b, of example_name "Some Suc"] a show ?thesis
    by (simp add: loaded_view_def example_entries_def)
qed

section \<open>The bootstrap poller\<close>

text \<open>
  Claim C8. \<open>getFirstMessage\<close> returns exactly when some request is answered by a
  response that resolves, and at the first such request: the response parsed, its
  \<open>loading\<close> is false, and the metadata returned is built from its fields. Every
  request before it failed, or was answered with \<open>loading\<close> true, or did not resolve;
  each of them is logged, raises nothing, and is followed by one sleep of 1000 ms. A
  failed request and a response with \<open>loading\<close> true never resolve. So for the answers
  loading, failure, loading, ready the call returns the metadata of the fourth answer
  after exactly four requests and three sleeps.
\<close>

theorem poller_convergence:
  "(getFirstMessage fetch newPublicKey s = Some (m, s')) =
   (\<exists>n. (\<forall>i<n. ready newPublicKey (fetch (fetches s + i)) = None) \<and>
        ready newPublicKey (fetch (fetches s + n)) = Some m \<and>
        s' = s\<lparr>fetches := fetches s + n + 1,
               sleeps := sleeps s @ replicate n 1000,
               logged := logged s @ map (\<lambda>i. line_of (fetch (fetches s + i))) [0..<n]\<rparr>) \<and>
   (ready newPublicKey r = Some m \<longrightarrow>
      (\<exists>config. r = Parsed config \<and> \<not> loading config \<and>
         newPublicKey (Config.firstMessage config) = Some (FeedMetadata.firstMessage m) \<and>
         newPublicKey (Config.programId config) = Some (FeedMetadata.programId m) \<and>
         FeedMetadata.loginMethod m = Config.loginMethod config \<and>
         FeedMetadata.url m = Config.url config)) \<and>
   ready newPublicKey Failed = None \<and>
   (loading config \<longrightarrow> ready newPublicKey (Parsed config) = None)"
proof -
  let ?after = "\<lambda>n. s\<lparr>fetches := fetches s + n + 1,
               sleeps := sleeps s @ replicate n 1000,
               logged := logged s @ map (\<lambda>i. line_of (fetch (fetches s + i))) [0..<n]\<rparr>"
  let ?hit = "\<lambda>n. (\<forall>i<n. ready newPublicKey (fetch (fetches s + i)) = None) \<and>
        ready newPublicKey (fetch (fetches s + n)) = Some m \<and> s' = ?after n"
  have direct: "\<exists>n. ?hit n" if ret: "getFirstMessage fetch newPublicKey s = Some (m, s')"
  proof -
    define P where "P n = (ready newPublicKey (fetch (fetches s + n)) \<noteq> None)" for n
    from poll_never [OF ret] have ex: "\<exists>n. P n" by (simp add: P_def)
    define n where "n = (LEAST n. P n)"
    from ex have Pn: "P n" unfolding n_def by (metis LeastI)
    have before: "\<forall>i<n. ready newPublicKey (fetch (fetches s + i)) = None"
    proof (intro allI impI)
      fix i assume "i < n"
      then have "\<not> P i" unfolding n_def by (rule not_less_Least)
      then show "ready newPublicKey (fetch (fetches s + i)) = None" by (simp add: P_def)
    qed
    from Pn obtain m' where m': "ready newPublicKey (fetch (fetches s + n)) = Some m'"
      by (auto simp add: P_def)
    from poll_converges [OF before m'] ret have "m' = m" and "s' = ?after n"
      by simp_all
    with before m' show ?thesis by blast
  qed
  have converse: "getFirstMessage fetch newPublicKey s = Some (m, s')" if "\<exists>n. ?hit n"
    using that poll_converges by blast
  have fields: "\<exists>config. r = Parsed config \<and> \<not> loading config \<and>
         newPublicKey (Config.firstMessage config) = Some (FeedMetadata.firstMessage m) \<and>
         newPublicKey (Config.programId config) = Some (FeedMetadata.programId m) \<and>
         FeedMetadata.loginMethod m = Config.loginMethod config \<and>
         FeedMetadata.url m = Config.url config"
    if "ready newPublicKey r = Some m"
    using that by (auto simp add: ready_def split: Response.splits option.splits if_splits)
  have failed: "ready newPublicKey Failed = None"
    by (simp add: ready_def)
  have busy: "loading config \<longrightarrow> ready newPublicKey (Parsed config) = None"
    by (simp add: ready_def)
  from direct converse have "(getFirstMessage fetch newPublicKey s = Some (m, s')) = (\<exists>n. ?hit n)"
    by blast
  with fields failed busy show ?thesis by blast
qed

theorem poller_convergence_witness:
  "getFirstMessage example_fetch example_newPublicKey poll_start =
     Some (\<lparr>firstMessage = 1, loginMethod = 0, programId = 9, url = 4\<rparr>,
           \<lparr>fetches = 4, sleeps = [1000, 1000, 1000],
            logged = [WaitingForProgram, ErrorLine, WaitingForProgram]\<rparr>)"
proof -
  have a: "\<forall>i<3. ready example_newPublicKey (example_fetch (fetches poll_start + i)) = None"
  proof (intro allI impI)
    fix i :: nat assume "i < 3"
    then have "i = 0 \<or> i = 1 \<or> i = 2" by arith
    then show "ready example_newPublicKey (example_fetch (fetches poll_start + i)) = None"
      by (auto simp add: ready_def example_fetch_def example_config_def poll_start_def)
  qed
  have b: "ready example_newPublicKey (example_fetch (fetches poll_start + 3)) =
      Some \<lparr>firstMessage = 1, loginMethod = 0, programId = 9, url = 4\<rparr>"
    by (simp add: ready_def example_fetch_def example_config_def poll_start_def
        example_newPublicKey_def)
  have c: "map (\<lambda>i. line_of (example_fetch (fetches poll_start + i))) [0..<3] =
      [WaitingForProgram, ErrorLine, WaitingForProgram]"
    by (simp add: upt_rec line_of_def example_fetch_def example_config_def poll_start_def)
  have "getFirstMessage example_fetch example_newPublicKey poll_start =
      Some (\<lparr>firstMessage = 1, loginMethod = 0, programId = 9, url = 4\<rparr>,
        poll_start\<lparr>fetches := fetches poll_start + 3 + 1,
               sleeps := sleeps poll_start @ replicate 3 1000,
               logged := logged poll_start @
                 map (\<lambda>i. line_of (example_fetch (fetches poll_start + i))) [0..<3]\<rparr>)"
    using poller_convergence [THEN conjunct1, THEN iffD2, OF exI, of 3, OF conjI, OF a conjI,
        OF b refl] .
  then show ?thesis
    by (simp add: c) (simp add: poll_start_def numeral_3_eq_3)
qed

end
